theory Spec2Isabelle
  imports
    Complex_Main
    "HOL-Library.Char_ord"
    "HOL-Library.List_Lexorder"
    "HOL-Library.Product_Lexorder"
    "HOL-Library.Multiset"
begin

section \<open>The record store of schema.md\<close>

text \<open>
  The program is a PostgreSQL schema. Of schema.md the model has the five tables with their
  constraints, the two validation triggers, the views \<open>mass_comparison\<close> and \<open>plot_catalog\<close>
  and the function \<open>get_analysis_plots\<close>; of the schema of the isotope analysis platform it
  has the table \<open>isotope_analyses\<close> and its two views. The views \<open>latest_analyses\<close> and
  \<open>detection_results\<close>, the \<open>updated_at\<close> trigger and the tables \<open>realtime_status\<close> and
  \<open>system_logs\<close> are left out. Tables are lists of rows in insertion order. Column types:
  \<^item> \<open>UUID\<close> and \<open>BIGSERIAL\<close> keys are natural numbers, chosen by the writer;
  \<^item> \<open>TEXT\<close> is \<open>string\<close>, compared by character code;
  \<^item> \<open>REAL\<close> is the four-byte float \<open>float4\<close> modelled below, with its rounding, its
    range errors, its infinities and NaN; \<open>NUMERIC\<close> is a HOL real;
  \<^item> \<open>TIMESTAMP WITH TIME ZONE\<close> is an integer, the seconds since the epoch;
  \<^item> a nullable column that the schema computes or reads for \<open>NULL\<close> is an \<open>option\<close>,
    \<open>None\<close> being \<open>NULL\<close>; a \<open>NOT NULL\<close> column has a plain type, so a write that carries
    \<open>NULL\<close> there (rejected by the constraint) is outside the model; the timestamp and
    metadata columns, which have a \<open>DEFAULT\<close>, hold a value.
  A statement is one row at a time; \<open>id\<close> values are the writer's, so the defaults that
  generate them are not modelled.
\<close>

type_synonym uuid = nat
type_synonym timestamptz = int

datatype sql_error =
  DivisionByZero
| NumericValueOutOfRange
| CheckViolation
| UniqueViolation
| ForeignKeyViolation

subsection \<open>The type \<open>REAL\<close>\<close>

text \<open>
  A \<open>REAL\<close> is an IEEE 754 single: a finite value, an infinity or NaN. \<open>Finite x\<close> is the
  float whose value is \<open>x\<close>; the operations below return a representable \<open>x\<close>. The two zeros
  are one value: the comparisons of PostgreSQL and the tests its division makes treat them
  alike, and only the sign bit of a zero is lost.
\<close>

datatype float4 = Finite real | PosInf | NegInf | NaN

text \<open>
  PostgreSQL orders floats totally, in comparisons, \<open>CHECK\<close>s, \<open>ORDER BY\<close> and \<open>RANK\<close> alike:
  NaN equals NaN and is greater than every other value. The key embeds this order in a
  lexicographic pair.
\<close>

definition float4_key :: "float4 \<Rightarrow> nat \<times> real" where
  "float4_key x =
     (case x of NegInf \<Rightarrow> (0, 0) | Finite a \<Rightarrow> (1, a) | PosInf \<Rightarrow> (2, 0) | NaN \<Rightarrow> (3, 0))"

instantiation float4 :: "{zero, linorder}"
begin

definition zero_float4 :: float4 where
  "zero_float4 = Finite 0"

definition less_eq_float4 :: "float4 \<Rightarrow> float4 \<Rightarrow> bool" where
  "less_eq_float4 x y \<longleftrightarrow> float4_key x \<le> float4_key y"

definition less_float4 :: "float4 \<Rightarrow> float4 \<Rightarrow> bool" where
  "less_float4 x y \<longleftrightarrow> float4_key x < float4_key y"

instance
proof
  fix x y z :: float4
  show "(x < y) = (x \<le> y \<and> \<not> y \<le> x)"
    unfolding less_float4_def less_eq_float4_def by (rule less_le_not_le)
  show "x \<le> x" unfolding less_eq_float4_def by simp
  show "x \<le> y \<Longrightarrow> y \<le> z \<Longrightarrow> x \<le> z"
    unfolding less_eq_float4_def by (rule order_trans)
  show "x \<le> y \<Longrightarrow> y \<le> x \<Longrightarrow> x = y"
    unfolding less_eq_float4_def
    by (cases x; cases y) (simp_all add: float4_key_def)
  show "x \<le> y \<or> y \<le> x"
    unfolding less_eq_float4_def by (rule linear)
qed

end

text \<open>The key of a descending \<open>ORDER BY\<close>: it reverses the order, so NaN comes first.\<close>

definition float4_desc :: "float4 \<Rightarrow> nat \<times> real" where
  "float4_desc x =
     (case x of NaN \<Rightarrow> (0, 0) | PosInf \<Rightarrow> (1, 0) | Finite a \<Rightarrow> (2, - a) | NegInf \<Rightarrow> (3, 0))"

text \<open>
  Rounding to the nearest float, a tie to the even significand. A float has 24 significant
  bits and its least exponent is \<open>-126\<close>, below which the spacing stays \<open>2 powi (-149)\<close>.
\<close>

definition round_even :: "real \<Rightarrow> int" where
  "round_even q =
     (let f = \<lfloor>q\<rfloor>; d = q - real_of_int f
      in if d < 1 / 2 then f
         else if 1 / 2 < d then f + 1
         else if even f then f else f + 1)"

definition float4_exponent :: "real \<Rightarrow> int" where
  "float4_exponent a = max (- 126) \<lfloor>log 2 a\<rfloor>"

definition round_float4 :: "real \<Rightarrow> real" where
  "round_float4 x =
     (if x = 0 then 0
      else let ulp = 2 powi (float4_exponent \<bar>x\<bar> - 23)
           in real_of_int (round_even (x / ulp)) * ulp)"

text \<open>
  The operator \<open>/\<close> on \<open>REAL\<close>: a zero divisor raises \<open>division_by_zero\<close> unless the dividend
  is NaN; otherwise the IEEE quotient is returned, except that an infinite quotient of a
  finite dividend and a zero quotient of a non-zero dividend by a finite divisor raise
  \<open>numeric_value_out_of_range\<close> (overflow, underflow).
\<close>

definition float4_div :: "float4 \<Rightarrow> float4 \<Rightarrow> sql_error + float4" where
  "float4_div val1 val2 =
     (if val2 = Finite 0 \<and> val1 \<noteq> NaN then Inl DivisionByZero
      else case (val1, val2) of
        (NaN, _) \<Rightarrow> Inr NaN
      | (_, NaN) \<Rightarrow> Inr NaN
      | (Finite a, Finite b) \<Rightarrow>
          (let r = round_float4 (a / b)
           in if 2 ^ 128 \<le> \<bar>r\<bar> then Inl NumericValueOutOfRange
              else if r = 0 \<and> a \<noteq> 0 then Inl NumericValueOutOfRange
              else Inr (Finite r))
      | (Finite a, _) \<Rightarrow> Inr (Finite 0)
      | (PosInf, Finite b) \<Rightarrow> Inr (if 0 < b then PosInf else NegInf)
      | (NegInf, Finite b) \<Rightarrow> Inr (if 0 < b then NegInf else PosInf)
      | (_, _) \<Rightarrow> Inr NaN)"

subsection \<open>The tables\<close>

record session_row =
  s_id :: uuid
  sample_filename :: string
  background_filename :: string
  confidence_threshold :: float4
  analysis_timestamp :: timestamptz
  s_metadata :: string
  s_created_at :: timestamptz
  s_updated_at :: timestamptz

text \<open>
  The keys of \<open>plot_metadata\<close> that the schema reads, typed as interface PlotMetadata of the
  dashboard types them: the isotope is text and the energy a number, so the cast to \<open>REAL\<close>
  in the queries never fails; the energy is held as the float the cast gives.
\<close>

record plot_metadata_json =
  md_parent_isotope :: "string option"
  md_gamma_energy_kev :: "float4 option"

record plot_row =
  p_id :: uuid
  p_analysis_id :: uuid
  plot_type :: string
  plot_title :: string
  plot_data_base64 :: string
  plot_metadata :: plot_metadata_json
  p_created_at :: timestamptz

record detection_row =
  d_id :: uuid
  d_analysis_id :: uuid
  d_parent_isotope :: string
  daughter_isotope :: string
  gamma_energy_kev :: float4
  detected_counts :: float4
  count_uncertainty :: float4
  relative_uncertainty :: "float4 option"
  d_created_at :: timestamptz

record mass_estimate_row =
  m_id :: uuid
  m_analysis_id :: uuid
  m_parent_isotope :: string
  estimated_mass_g :: float4
  mass_uncertainty_g :: float4
  relative_mass_uncertainty :: "float4 option"
  m_created_at :: timestamptz

record summary_row =
  sum_id :: uuid
  sum_analysis_id :: uuid
  total_estimated_mass_g :: float4
  total_detections :: int
  unique_parent_isotopes :: int
  dominant_isotope :: "string option"
  mass_distribution :: "(string \<times> real) list"
  sum_created_at :: timestamptz

record store =
  analysis_sessions :: "session_row list"
  analysis_plots :: "plot_row list"
  isotope_detections :: "detection_row list"
  mass_estimates :: "mass_estimate_row list"
  analysis_summary :: "summary_row list"

definition empty_store :: store where
  "empty_store =
     \<lparr>analysis_sessions = [], analysis_plots = [], isotope_detections = [],
      mass_estimates = [], analysis_summary = []\<rparr>"

subsection \<open>The row triggers\<close>

text \<open>\<open>validate_isotope_detection()\<close>, schema.md lines 109-121.\<close>

definition validate_isotope_detection :: "detection_row \<Rightarrow> sql_error + detection_row" where
  "validate_isotope_detection new =
     (if detected_counts new > 0 then
        (case float4_div (count_uncertainty new) (detected_counts new) of
           Inl e \<Rightarrow> Inl e
         | Inr q \<Rightarrow> Inr (new\<lparr>relative_uncertainty := Some q\<rparr>))
      else Inr (new\<lparr>relative_uncertainty := None\<rparr>))"

text \<open>\<open>validate_mass_estimate()\<close>, schema.md lines 129-141.\<close>

definition validate_mass_estimate :: "mass_estimate_row \<Rightarrow> sql_error + mass_estimate_row" where
  "validate_mass_estimate new =
     (if estimated_mass_g new > 0 then
        (case float4_div (mass_uncertainty_g new) (estimated_mass_g new) of
           Inl e \<Rightarrow> Inl e
         | Inr q \<Rightarrow> Inr (new\<lparr>relative_mass_uncertainty := Some q\<rparr>))
      else Inr (new\<lparr>relative_mass_uncertainty := None\<rparr>))"

subsection \<open>Constraints\<close>

text \<open>A \<open>CHECK\<close> passes when its condition is true or \<open>NULL\<close>.\<close>

definition check_nonneg :: "float4 option \<Rightarrow> bool" where
  "check_nonneg v = (case v of None \<Rightarrow> True | Some r \<Rightarrow> r \<ge> 0)"

definition session_checks :: "session_row \<Rightarrow> bool" where
  "session_checks s \<longleftrightarrow> confidence_threshold s > 0 \<and> confidence_threshold s \<le> Finite 1"

definition plot_checks :: "plot_row \<Rightarrow> bool" where
  "plot_checks p \<longleftrightarrow>
     plot_type p \<in> set [''spectrum_overview'', ''mass_distribution'',
                         ''uncertainty_analysis'', ''roi_plot'']"

definition detection_checks :: "detection_row \<Rightarrow> bool" where
  "detection_checks d \<longleftrightarrow>
     gamma_energy_kev d > 0 \<and> detected_counts d \<ge> 0 \<and> count_uncertainty d \<ge> 0 \<and>
     check_nonneg (relative_uncertainty d)"

definition mass_estimate_checks :: "mass_estimate_row \<Rightarrow> bool" where
  "mass_estimate_checks m \<longleftrightarrow>
     estimated_mass_g m \<ge> 0 \<and> mass_uncertainty_g m \<ge> 0 \<and>
     check_nonneg (relative_mass_uncertainty m)"

definition summary_checks :: "summary_row \<Rightarrow> bool" where
  "summary_checks r \<longleftrightarrow>
     total_estimated_mass_g r \<ge> 0 \<and> total_detections r \<ge> 0 \<and> unique_parent_isotopes r \<ge> 0"

text \<open>The columns of the two \<open>UNIQUE\<close> constraints with several columns.\<close>

definition detection_key :: "detection_row \<Rightarrow> uuid \<times> string \<times> string \<times> float4" where
  "detection_key d = (d_analysis_id d, d_parent_isotope d, daughter_isotope d, gamma_energy_kev d)"

definition mass_estimate_key :: "mass_estimate_row \<Rightarrow> uuid \<times> string" where
  "mass_estimate_key m = (m_analysis_id m, m_parent_isotope m)"

definition session_ids :: "store \<Rightarrow> uuid list" where
  "session_ids st = map s_id (analysis_sessions st)"

subsection \<open>Statements\<close>

text \<open>
  The writes of the store: an \<open>INSERT\<close> of one row, an \<open>UPDATE ... WHERE id = k\<close> of a
  detection or a mass estimate, whose \<open>SET\<close> list is a function from the old row to the
  proposed one, and \<open>DELETE FROM analysis_sessions WHERE id = k\<close>. A statement runs the
  \<open>BEFORE\<close> row trigger, then the \<open>CHECK\<close> constraints, then the unique indexes, then the
  foreign key; the first failure aborts it.
\<close>

datatype statement =
  InsertSession session_row
| DeleteSession uuid
| InsertPlot plot_row
| InsertDetection detection_row
| UpdateDetection uuid "detection_row \<Rightarrow> detection_row"
| InsertMassEstimate mass_estimate_row
| UpdateMassEstimate uuid "mass_estimate_row \<Rightarrow> mass_estimate_row"
| InsertSummary summary_row

definition put_detection :: "store \<Rightarrow> detection_row list \<Rightarrow> detection_row \<Rightarrow> (detection_row \<Rightarrow> detection_row list) \<Rightarrow> sql_error + store" where
  "put_detection st others new place =
     (case validate_isotope_detection new of
        Inl e \<Rightarrow> Inl e
      | Inr row \<Rightarrow>
          if \<not> detection_checks row then Inl CheckViolation
          else if d_id row \<in> set (map d_id others) then Inl UniqueViolation
          else if detection_key row \<in> set (map detection_key others) then Inl UniqueViolation
          else if d_analysis_id row \<notin> set (session_ids st) then Inl ForeignKeyViolation
          else Inr (st\<lparr>isotope_detections := place row\<rparr>))"

definition put_mass_estimate :: "store \<Rightarrow> mass_estimate_row list \<Rightarrow> mass_estimate_row \<Rightarrow> (mass_estimate_row \<Rightarrow> mass_estimate_row list) \<Rightarrow> sql_error + store" where
  "put_mass_estimate st others new place =
     (case validate_mass_estimate new of
        Inl e \<Rightarrow> Inl e
      | Inr row \<Rightarrow>
          if \<not> mass_estimate_checks row then Inl CheckViolation
          else if m_id row \<in> set (map m_id others) then Inl UniqueViolation
          else if mass_estimate_key row \<in> set (map mass_estimate_key others) then Inl UniqueViolation
          else if m_analysis_id row \<notin> set (session_ids st) then Inl ForeignKeyViolation
          else Inr (st\<lparr>mass_estimates := place row\<rparr>))"

fun exec :: "statement \<Rightarrow> store \<Rightarrow> sql_error + store" where
  "exec (InsertSession s) st =
     (if \<not> session_checks s then Inl CheckViolation
      else if s_id s \<in> set (session_ids st) then Inl UniqueViolation
      else Inr (st\<lparr>analysis_sessions := analysis_sessions st @ [s]\<rparr>))"
| "exec (DeleteSession k) st =
     Inr \<lparr>analysis_sessions = filter (\<lambda>s. s_id s \<noteq> k) (analysis_sessions st),
          analysis_plots = filter (\<lambda>p. p_analysis_id p \<noteq> k) (analysis_plots st),
          isotope_detections = filter (\<lambda>d. d_analysis_id d \<noteq> k) (isotope_detections st),
          mass_estimates = filter (\<lambda>m. m_analysis_id m \<noteq> k) (mass_estimates st),
          analysis_summary = filter (\<lambda>r. sum_analysis_id r \<noteq> k) (analysis_summary st)\<rparr>"
| "exec (InsertPlot p) st =
     (if \<not> plot_checks p then Inl CheckViolation
      else if p_id p \<in> set (map p_id (analysis_plots st)) then Inl UniqueViolation
      else if p_analysis_id p \<notin> set (session_ids st) then Inl ForeignKeyViolation
      else Inr (st\<lparr>analysis_plots := analysis_plots st @ [p]\<rparr>))"
| "exec (InsertDetection d) st =
     put_detection st (isotope_detections st) d (\<lambda>row. isotope_detections st @ [row])"
| "exec (UpdateDetection k f) st =
     (case filter (\<lambda>d. d_id d = k) (isotope_detections st) of
        [] \<Rightarrow> Inr st
      | old # _ \<Rightarrow>
          put_detection st (filter (\<lambda>d. d_id d \<noteq> k) (isotope_detections st)) (f old)
            (\<lambda>row. map (\<lambda>d. if d_id d = k then row else d) (isotope_detections st)))"
| "exec (InsertMassEstimate m) st =
     put_mass_estimate st (mass_estimates st) m (\<lambda>row. mass_estimates st @ [row])"
| "exec (UpdateMassEstimate k f) st =
     (case filter (\<lambda>m. m_id m = k) (mass_estimates st) of
        [] \<Rightarrow> Inr st
      | old # _ \<Rightarrow>
          put_mass_estimate st (filter (\<lambda>m. m_id m \<noteq> k) (mass_estimates st)) (f old)
            (\<lambda>row. map (\<lambda>m. if m_id m = k then row else m) (mass_estimates st)))"
| "exec (InsertSummary r) st =
     (if \<not> summary_checks r then Inl CheckViolation
      else if sum_id r \<in> set (map sum_id (analysis_summary st)) then Inl UniqueViolation
      else if sum_analysis_id r \<in> set (map sum_analysis_id (analysis_summary st)) then Inl UniqueViolation
      else if sum_analysis_id r \<notin> set (session_ids st) then Inl ForeignKeyViolation
      else Inr (st\<lparr>analysis_summary := analysis_summary st @ [r]\<rparr>))"

text \<open>The store after a statement: a failed statement leaves it as it was.\<close>

definition run :: "statement \<Rightarrow> store \<Rightarrow> store" where
  "run stmt st = (case exec stmt st of Inl _ \<Rightarrow> st | Inr st' \<Rightarrow> st')"

text \<open>The reachable stores are those a list of statements produces from the empty one.\<close>

fun run_all :: "statement list \<Rightarrow> store \<Rightarrow> store" where
  "run_all [] st = st"
| "run_all (stmt # rest) st = run_all rest (run stmt st)"

section \<open>The views and the function of schema.md\<close>

text \<open>
  An \<open>ORDER BY\<close> is a stable sort of the rows in join order; ascending order puts \<open>NULL\<close> last,
  descending order first. The sort key of a nullable column is a pair whose first component
  tells \<open>NULL\<close> from a value.
\<close>

definition nulls_last :: "'a \<Rightarrow> 'a option \<Rightarrow> bool \<times> 'a" where
  "nulls_last d v = (case v of None \<Rightarrow> (True, d) | Some x \<Rightarrow> (False, x))"

subsection \<open>View \<open>mass_comparison\<close>, schema.md lines 190-200\<close>

record mass_comparison_row =
  mc_sample_filename :: string
  mc_analysis_timestamp :: timestamptz
  mc_parent_isotope :: string
  mc_estimated_mass_g :: float4
  mc_relative_mass_uncertainty :: "float4 option"
  mass_rank :: nat

text \<open>
  \<open>RANK() OVER (... ORDER BY v DESC)\<close>: the partition is sorted by descending value, and the
  rank of a row is the row number of its first peer, counted from one.
\<close>

definition rank_desc :: "float4 list \<Rightarrow> float4 \<Rightarrow> nat" where
  "rank_desc part x = Suc (length (takeWhile (\<lambda>y. y \<noteq> x) (rev (sort part))))"

definition mass_comparison_join :: "store \<Rightarrow> (session_row \<times> mass_estimate_row) list" where
  "mass_comparison_join st =
     [(s, m). s \<leftarrow> analysis_sessions st, m \<leftarrow> mass_estimates st, s_id s = m_analysis_id m]"

definition mass_partition :: "(session_row \<times> mass_estimate_row) list \<Rightarrow> string \<Rightarrow> float4 list" where
  "mass_partition joined nuc =
     map (\<lambda>(s, m). estimated_mass_g m) (filter (\<lambda>(s, m). m_parent_isotope m = nuc) joined)"

definition mass_comparison_select :: "(session_row \<times> mass_estimate_row) list \<Rightarrow> session_row \<times> mass_estimate_row \<Rightarrow> mass_comparison_row" where
  "mass_comparison_select joined = (\<lambda>(s, m).
     \<lparr>mc_sample_filename = sample_filename s,
      mc_analysis_timestamp = analysis_timestamp s,
      mc_parent_isotope = m_parent_isotope m,
      mc_estimated_mass_g = estimated_mass_g m,
      mc_relative_mass_uncertainty = relative_mass_uncertainty m,
      mass_rank = rank_desc (mass_partition joined (m_parent_isotope m)) (estimated_mass_g m)\<rparr>)"

definition mass_comparison :: "store \<Rightarrow> mass_comparison_row list" where
  "mass_comparison st =
     (let joined = mass_comparison_join st
      in sort_key (\<lambda>r. (mc_parent_isotope r, float4_desc (mc_estimated_mass_g r)))
           (map (mass_comparison_select joined) joined))"

subsection \<open>View \<open>plot_catalog\<close>, schema.md lines 203-222\<close>





subsection \<open>Function \<open>get_analysis_plots\<close>, schema.md lines 225-250\<close>






section \<open>The isotope analysis platform schema\<close>

text \<open>
  Table \<open>isotope_analyses\<close>, with the columns its two views read. \<open>DATE_TRUNC('day', t)\<close> is
  the start of the day of \<open>t\<close> in the time zone of the connection, here the one the seconds
  are counted in.
\<close>

record isotope_analysis_row =
  ia_id :: nat
  ia_analysis_id :: uuid
  ia_timestamp :: timestamptz
  sample_name :: string
  total_peaks_found :: int
  background_peaks :: int
  isotope_families_detected :: "string list"
  status :: string

definition date_trunc_day :: "timestamptz \<Rightarrow> timestamptz" where
  "date_trunc_day t = (t div 86400) * 86400"

definition completed :: "isotope_analysis_row list \<Rightarrow> isotope_analysis_row list" where
  "completed table = filter (\<lambda>r. status r = ''completed'') table"

text \<open>\<open>AVG\<close> over a column without \<open>NULL\<close>: \<open>NULL\<close> on no row.\<close>

definition sql_avg :: "int list \<Rightarrow> real option" where
  "sql_avg xs = (if xs = [] then None else Some (real_of_int (sum_list xs) / real (length xs)))"

subsection \<open>View \<open>analysis_summary\<close> of the platform schema, lines 105-124\<close>

record daily_summary_row =
  analysis_date :: "timestamptz option"
  total_analyses :: nat
  avg_peaks :: "real option"
  avg_background_peaks :: "real option"
  ds_unique_samples :: nat
  all_isotopes_detected :: "string option list"

text \<open>\<open>LEFT JOIN LATERAL unnest(...) ON true\<close>: one row per array element, and one row with
  \<open>NULL\<close> for an empty array.\<close>

definition left_join_unnest :: "isotope_analysis_row \<Rightarrow> (isotope_analysis_row \<times> string option) list" where
  "left_join_unnest r =
     (case isotope_families_detected r of
        [] \<Rightarrow> [(r, None)]
      | nucs \<Rightarrow> map (\<lambda>i. (r, Some i)) nucs)"

text \<open>\<open>LEFT JOIN (SELECT DATE_TRUNC('day', timestamp), id ...) ia_day ON ia_day.id = ia.id\<close>.\<close>

definition left_join_day :: "isotope_analysis_row list \<Rightarrow> isotope_analysis_row \<times> string option \<Rightarrow> (isotope_analysis_row \<times> string option \<times> timestamptz option) list" where
  "left_join_day table = (\<lambda>(r, nuc).
     (case filter (\<lambda>d. ia_id d = ia_id r) table of
        [] \<Rightarrow> [(r, nuc, None)]
      | ds \<Rightarrow> map (\<lambda>d. (r, nuc, Some (date_trunc_day (ia_timestamp d)))) ds))"

definition daily_group :: "(isotope_analysis_row \<times> string option \<times> timestamptz option) list \<Rightarrow> timestamptz option \<Rightarrow> daily_summary_row" where
  "daily_group joined day =
     (let rows = filter (\<lambda>(r, nuc, d). d = day) joined
      in \<lparr>analysis_date = day,
          total_analyses = length rows,
          avg_peaks = sql_avg (map (\<lambda>(r, nuc, d). total_peaks_found r) rows),
          avg_background_peaks = sql_avg (map (\<lambda>(r, nuc, d). background_peaks r) rows),
          ds_unique_samples = length (remdups (map (\<lambda>(r, nuc, d). sample_name r) rows)),
          all_isotopes_detected = remdups (map (\<lambda>(r, nuc, d). nuc) rows)\<rparr>)"

definition analysis_summary_view :: "isotope_analysis_row list \<Rightarrow> daily_summary_row list" where
  "analysis_summary_view table =
     (let joined = concat (map (left_join_day table) (concat (map left_join_unnest (completed table))));
          days = remdups (map (\<lambda>(r, nuc, d). d) joined)
      in map (daily_group joined) (rev (sort_key (nulls_last 0) days)))"

subsection \<open>View \<open>isotope_frequency\<close>, lines 127-137\<close>

record isotope_frequency_row =
  isotope :: string
  detection_count :: nat
  if_unique_samples :: nat
  detection_percentage :: real

text \<open>
  \<open>ROUND(x, 2)\<close> on \<open>NUMERIC\<close>: to the nearest hundredth, a tie away from zero. The quotient
  that the view rounds is taken as exact; PostgreSQL computes it to at least sixteen
  significant digits.
\<close>

definition sql_round2 :: "real \<Rightarrow> real" where
  "sql_round2 x = sgn x * real_of_int \<lfloor>\<bar>x\<bar> * 100 + 1 / 2\<rfloor> / 100"

text \<open>The operator \<open>/\<close> on \<open>NUMERIC\<close> raises \<open>division_by_zero\<close> on a zero divisor.\<close>

definition numeric_div :: "real \<Rightarrow> real \<Rightarrow> sql_error + real" where
  "numeric_div a b = (if b = 0 then Inl DivisionByZero else Inr (a / b))"

text \<open>The rows of a result, or the first error raised while computing one.\<close>

fun collect :: "('e + 'a) list \<Rightarrow> 'e + 'a list" where
  "collect [] = Inr []"
| "collect (x # xs) =
     (case x of
        Inl e \<Rightarrow> Inl e
      | Inr v \<Rightarrow> (case collect xs of Inl e \<Rightarrow> Inl e | Inr vs \<Rightarrow> Inr (v # vs)))"

definition unnest_completed :: "isotope_analysis_row list \<Rightarrow> (isotope_analysis_row \<times> string) list" where
  "unnest_completed table =
     [(r, nuc). r \<leftarrow> table, nuc \<leftarrow> isotope_families_detected r, status r = ''completed'']"

definition frequency_group :: "isotope_analysis_row list \<Rightarrow> string \<Rightarrow> sql_error + isotope_frequency_row" where
  "frequency_group table nuc =
     (let rows = filter (\<lambda>(r, i). i = nuc) (unnest_completed table)
      in case numeric_div (real (length rows)) (real (length (completed table))) of
           Inl e \<Rightarrow> Inl e
         | Inr q \<Rightarrow>
             Inr \<lparr>isotope = nuc,
                  detection_count = length rows,
                  if_unique_samples = length (remdups (map (\<lambda>(r, i). sample_name r) rows)),
                  detection_percentage = sql_round2 (q * 100)\<rparr>)"

definition isotope_frequency :: "isotope_analysis_row list \<Rightarrow> sql_error + isotope_frequency_row list" where
  "isotope_frequency table =
     (case collect (map (frequency_group table) (remdups (map snd (unnest_completed table)))) of
        Inl e \<Rightarrow> Inl e
      | Inr rows \<Rightarrow> Inr (sort_key (\<lambda>r. - int (detection_count r)) rows))"

section \<open>Integrity of the store\<close>

text \<open>
  What the constraints of the schema say of a whole store: every foreign key points to a
  session, the keys of every \<open>PRIMARY KEY\<close> and \<open>UNIQUE\<close> constraint are distinct, every
  detection and mass estimate is a fixed point of its trigger, and every summary passes its
  checks.
\<close>

definition fk_ok :: "store \<Rightarrow> bool" where
  "fk_ok st \<longleftrightarrow>
     list_all (\<lambda>p. p_analysis_id p \<in> set (session_ids st)) (analysis_plots st) \<and>
     list_all (\<lambda>d. d_analysis_id d \<in> set (session_ids st)) (isotope_detections st) \<and>
     list_all (\<lambda>m. m_analysis_id m \<in> set (session_ids st)) (mass_estimates st) \<and>
     list_all (\<lambda>r. sum_analysis_id r \<in> set (session_ids st)) (analysis_summary st)"

definition unique_ok :: "store \<Rightarrow> bool" where
  "unique_ok st \<longleftrightarrow>
     distinct (session_ids st) \<and>
     distinct (map p_id (analysis_plots st)) \<and>
     distinct (map d_id (isotope_detections st)) \<and>
     distinct (map detection_key (isotope_detections st)) \<and>
     distinct (map m_id (mass_estimates st)) \<and>
     distinct (map mass_estimate_key (mass_estimates st)) \<and>
     distinct (map sum_id (analysis_summary st)) \<and>
     distinct (map sum_analysis_id (analysis_summary st))"

definition derived_ok :: "store \<Rightarrow> bool" where
  "derived_ok st \<longleftrightarrow>
     list_all (\<lambda>d. validate_isotope_detection d = Inr d) (isotope_detections st) \<and>
     list_all (\<lambda>m. validate_mass_estimate m = Inr m) (mass_estimates st)"

definition summaries_ok :: "store \<Rightarrow> bool" where
  "summaries_ok st \<longleftrightarrow> list_all summary_checks (analysis_summary st)"

definition store_ok :: "store \<Rightarrow> bool" where
  "store_ok st \<longleftrightarrow> fk_ok st \<and> unique_ok st \<and> derived_ok st \<and> summaries_ok st"

text \<open>The estimated masses of the mass estimates of one session.\<close>

definition session_masses :: "store \<Rightarrow> uuid \<Rightarrow> float4 list" where
  "session_masses st k =
     map estimated_mass_g (filter (\<lambda>m. m_analysis_id m = k) (mass_estimates st))"

section \<open>Closed forms\<close>

text \<open>
  The row that the view reports for one isotope, written over the completed analyses: the
  number of occurrences of the isotope in their arrays, the number of sample names among
  those that list it, and the rounded percentage.
\<close>

definition frequency_row :: "isotope_analysis_row list \<Rightarrow> string \<Rightarrow> isotope_frequency_row" where
  "frequency_row table x =
     \<lparr>isotope = x,
      detection_count =
        sum_list (map (\<lambda>a. count_list (isotope_families_detected a) x) (completed table)),
      if_unique_samples =
        card (sample_name ` {a \<in> set (completed table). x \<in> set (isotope_families_detected a)}),
      detection_percentage =
        sql_round2 (real (sum_list (map (\<lambda>a. count_list (isotope_families_detected a) x) (completed table)))
          / real (length (completed table)) * 100)\<rparr>"

text \<open>The order of an ascending \<open>ORDER BY\<close> on a nullable column, \<open>NULL\<close> last.\<close>

definition nulls_last_le :: "'a::linorder option \<Rightarrow> 'a option \<Rightarrow> bool" where
  "nulls_last_le a b =
     (case (a, b) of
        (Some x, Some y) \<Rightarrow> x \<le> y
      | (Some x, None) \<Rightarrow> True
      | (None, Some y) \<Rightarrow> False
      | (None, None) \<Rightarrow> True)"

section \<open>Example data\<close>

definition ex_session :: session_row where
  "ex_session =
     \<lparr>s_id = 1, sample_filename = ''sample.spe'', background_filename = ''background.spe'',
      confidence_threshold = Finite (1 / 2), analysis_timestamp = 100, s_metadata = ''{}'',
      s_created_at = 100, s_updated_at = 100\<rparr>"

definition ex_detection :: detection_row where
  "ex_detection =
     \<lparr>d_id = 1, d_analysis_id = 1, d_parent_isotope = ''Cs-137'', daughter_isotope = ''Ba-137m'',
      gamma_energy_kev = Finite 662, detected_counts = Finite 200, count_uncertainty = Finite 10,
      relative_uncertainty = Some (Finite 7), d_created_at = 100\<rparr>"

definition ex_mass :: mass_estimate_row where
  "ex_mass =
     \<lparr>m_id = 1, m_analysis_id = 1, m_parent_isotope = ''Cs-137'', estimated_mass_g = Finite 5,
      mass_uncertainty_g = Finite 1, relative_mass_uncertainty = Some (Finite 7), m_created_at = 100\<rparr>"

definition ex_store :: store where
  "ex_store = run_all [InsertSession ex_session] empty_store"

definition ex_plot :: plot_row where
  "ex_plot =
     \<lparr>p_id = 1, p_analysis_id = 1, plot_type = ''spectrum_overview'', plot_title = ''Spectrum'',
      plot_data_base64 = ''iVBORw0KGgo='',
      plot_metadata = \<lparr>md_parent_isotope = None, md_gamma_energy_kev = None\<rparr>,
      p_created_at = 100\<rparr>"

definition ex_summary :: summary_row where
  "ex_summary =
     \<lparr>sum_id = 1, sum_analysis_id = 1, total_estimated_mass_g = Finite 5, total_detections = 1,
      unique_parent_isotopes = 1, dominant_isotope = Some ''Cs-137'',
      mass_distribution = [(''Cs-137'', 1)], sum_created_at = 100\<rparr>"

definition ex_full_store :: store where
  "ex_full_store =
     run_all [InsertSession ex_session, InsertSession (ex_session\<lparr>s_id := 2\<rparr>),
              InsertDetection ex_detection, InsertMassEstimate ex_mass, InsertPlot ex_plot,
              InsertSummary ex_summary,
              InsertMassEstimate (ex_mass\<lparr>m_id := 2, m_analysis_id := 2\<rparr>)] empty_store"

definition ex_stale_store :: store where
  "ex_stale_store =
     run_all [InsertSession ex_session, InsertMassEstimate ex_mass, InsertSummary ex_summary,
              UpdateMassEstimate 1 (\<lambda>old. old\<lparr>estimated_mass_g := Finite 3\<rparr>)] empty_store"

definition ex_analysis :: isotope_analysis_row where
  "ex_analysis =
     \<lparr>ia_id = 1, ia_analysis_id = 1, ia_timestamp = 90000, sample_name = ''soil-1'',
      total_peaks_found = 10, background_peaks = 2,
      isotope_families_detected = [''Cs-137'', ''Co-60''], status = ''completed''\<rparr>"

definition ex_table :: "isotope_analysis_row list" where
  "ex_table =
     [ex_analysis\<lparr>isotope_families_detected := [''Cs-137'', ''Co-60'', ''K-40'']\<rparr>,
      ex_analysis\<lparr>ia_id := 2, ia_analysis_id := 2, ia_timestamp := 100000, sample_name := ''soil-2'',
        total_peaks_found := 20, isotope_families_detected := [''Cs-137'']\<rparr>]"

definition ex_rank_store :: store where
  "ex_rank_store =
     run_all [InsertSession ex_session, InsertSession (ex_session\<lparr>s_id := 2\<rparr>),
              InsertSession (ex_session\<lparr>s_id := 3\<rparr>),
              InsertMassEstimate (ex_mass\<lparr>estimated_mass_g := Finite 3\<rparr>),
              InsertMassEstimate (ex_mass\<lparr>m_id := 2, m_analysis_id := 2\<rparr>),
              InsertMassEstimate (ex_mass\<lparr>m_id := 3, m_analysis_id := 3\<rparr>),
              InsertMassEstimate (ex_mass\<lparr>m_id := 4, m_analysis_id := 3, m_parent_isotope := ''Co-60'',
                estimated_mass_g := Finite 8\<rparr>)] empty_store"


section \<open>The triggers and the statements\<close>

lemmas ex_defs = ex_session_def ex_detection_def ex_mass_def ex_store_def
lemmas exec_defs = run_def empty_store_def put_detection_def put_mass_estimate_def
  validate_isotope_detection_def validate_mass_estimate_def
  detection_checks_def mass_estimate_checks_def check_nonneg_def session_checks_def
  plot_checks_def summary_checks_def session_ids_def detection_key_def mass_estimate_key_def

lemmas ex_defs2 = ex_defs ex_plot_def ex_summary_def ex_full_store_def

subsection \<open>Floats\<close>

lemma float4_order_simps [simp]:
  "Finite a \<le> Finite b \<longleftrightarrow> a \<le> b"
  "Finite a < Finite b \<longleftrightarrow> a < b"
  "(0 :: float4) = Finite 0"
  by (simp_all add: less_eq_float4_def less_float4_def float4_key_def zero_float4_def)

lemma float4_desc_le: "float4_desc x \<le> float4_desc y \<longleftrightarrow> y \<le> x"
  by (cases x; cases y) (simp_all add: float4_desc_def less_eq_float4_def float4_key_def)

lemma float4_exponent_eq:
  assumes "2 powi e \<le> a" "a < 2 powi (e + 1)" "- 126 \<le> e"
  shows "float4_exponent a = e"
proof -
  have "(0 :: real) < 2 powi e" by simp
  with assms(1) have pos: "0 < a" by linarith
  have p: "(2 :: real) powr (real_of_int k) = 2 powi k" for k
    by (simp add: powr_real_of_int')
  have "\<lfloor>log 2 a\<rfloor> = e \<longleftrightarrow> 2 powr (real_of_int e) \<le> a \<and> a < 2 powr (real_of_int (e + 1))"
    using pos by (intro floor_log_eq_powr_iff) simp_all
  then have "\<lfloor>log 2 a\<rfloor> = e"
    using assms(1,2) by (simp only: p)
  with assms(3) show ?thesis by (simp add: float4_exponent_def)
qed

lemma round_float4_eq:
  assumes "2 powi e \<le> \<bar>x\<bar>" "\<bar>x\<bar> < 2 powi (e + 1)" "- 126 \<le> e"
  shows "round_float4 x = real_of_int (round_even (x / 2 powi (e - 23))) * 2 powi (e - 23)"
proof -
  have "(0 :: real) < 2 powi e" by simp
  with assms(1) have "0 < \<bar>x\<bar>" by linarith
  then have "x \<noteq> 0" by simp
  then show ?thesis
    by (simp add: round_float4_def Let_def float4_exponent_eq [OF assms])
qed






lemma float4_div_10_200: "float4_div (Finite 10) (Finite 200) = Inr (Finite (13421773 / 268435456))"
  apply (simp add: float4_div_def Let_def)
  apply (subst round_float4_eq [where e = "- 5"]; simp add: round_even_def)+
  done

lemma float4_div_1_5: "float4_div (Finite 1) (Finite 5) = Inr (Finite (13421773 / 67108864))"
  apply (simp add: float4_div_def Let_def)
  apply (subst round_float4_eq [where e = "- 3"]; simp add: round_even_def)+
  done

lemma float4_div_1_3: "float4_div (Finite 1) (Finite 3) = Inr (Finite (11184811 / 33554432))"
  apply (simp add: float4_div_def Let_def)
  apply (subst round_float4_eq [where e = "- 2"]; simp add: round_even_def)+
  done

lemma float4_div_1_8: "float4_div (Finite 1) (Finite 8) = Inr (Finite (1 / 8))"
  apply (simp add: float4_div_def Let_def)
  apply (subst round_float4_eq [where e = "- 3"]; simp add: round_even_def)+
  done

lemma float4_div_overflow:
  "float4_div (Finite (2 ^ 100)) (Finite (1 / 2 ^ 100)) = Inl NumericValueOutOfRange"
  apply (simp add: float4_div_def Let_def)
  apply (subst round_float4_eq [where e = "200"]; simp add: round_even_def)+
  done

lemmas float4_divs = float4_div_10_200 float4_div_1_5 float4_div_1_3 float4_div_1_8 float4_div_overflow

subsection \<open>The triggers\<close>

lemma validate_isotope_detection_Inr:
  "validate_isotope_detection new = Inr row \<longleftrightarrow>
     (if 0 < detected_counts new
      then \<exists>q. float4_div (count_uncertainty new) (detected_counts new) = Inr q \<and>
               row = new\<lparr>relative_uncertainty := Some q\<rparr>
      else row = new\<lparr>relative_uncertainty := None\<rparr>)"
  by (auto simp: validate_isotope_detection_def split: sum.splits)

lemma validate_mass_estimate_Inr:
  "validate_mass_estimate new = Inr row \<longleftrightarrow>
     (if 0 < estimated_mass_g new
      then \<exists>q. float4_div (mass_uncertainty_g new) (estimated_mass_g new) = Inr q \<and>
               row = new\<lparr>relative_mass_uncertainty := Some q\<rparr>
      else row = new\<lparr>relative_mass_uncertainty := None\<rparr>)"
  by (auto simp: validate_mass_estimate_def split: sum.splits)

lemma validate_isotope_detection_fixed:
  "validate_isotope_detection new = Inr row \<Longrightarrow> validate_isotope_detection row = Inr row"
  by (auto simp: validate_isotope_detection_def split: sum.splits if_splits)

lemma validate_mass_estimate_fixed:
  "validate_mass_estimate new = Inr row \<Longrightarrow> validate_mass_estimate row = Inr row"
  by (auto simp: validate_mass_estimate_def split: sum.splits if_splits)



lemma put_detection_Inr:
  assumes "put_detection st others new place = Inr st'"
  obtains row where "validate_isotope_detection new = Inr row" "detection_checks row"
    "d_id row \<notin> set (map d_id others)" "detection_key row \<notin> set (map detection_key others)"
    "d_analysis_id row \<in> set (session_ids st)" "st' = st\<lparr>isotope_detections := place row\<rparr>"
  using assms by (auto simp: put_detection_def split: sum.splits if_splits)

lemma put_mass_estimate_Inr:
  assumes "put_mass_estimate st others new place = Inr st'"
  obtains row where "validate_mass_estimate new = Inr row" "mass_estimate_checks row"
    "m_id row \<notin> set (map m_id others)" "mass_estimate_key row \<notin> set (map mass_estimate_key others)"
    "m_analysis_id row \<in> set (session_ids st)" "st' = st\<lparr>mass_estimates := place row\<rparr>"
  using assms by (auto simp: put_mass_estimate_def split: sum.splits if_splits)




subsection \<open>The reachable stores keep their integrity\<close>

lemma derived_ok_exec:
  assumes "derived_ok st" "exec stmt st = Inr st'"
  shows "derived_ok st'"
proof (cases stmt)
  case (InsertDetection d)
  with assms show ?thesis
    by (auto simp: derived_ok_def list_all_iff elim!: put_detection_Inr dest: validate_isotope_detection_fixed)
next
  case (UpdateDetection k f)
  with assms show ?thesis
    by (auto simp: derived_ok_def list_all_iff split: list.splits elim!: put_detection_Inr dest: validate_isotope_detection_fixed)
next
  case (InsertMassEstimate m)
  with assms show ?thesis
    by (auto simp: derived_ok_def list_all_iff elim!: put_mass_estimate_Inr dest: validate_mass_estimate_fixed)
next
  case (UpdateMassEstimate k f)
  with assms show ?thesis
    by (auto simp: derived_ok_def list_all_iff split: list.splits elim!: put_mass_estimate_Inr dest: validate_mass_estimate_fixed)
qed (use assms in \<open>auto simp: derived_ok_def list_all_iff split: if_splits\<close>)

lemma fk_filter:
  assumes "list_all (\<lambda>c. f c \<in> s_id ` set ss) cs"
  shows "list_all (\<lambda>c. f c \<in> s_id ` {x \<in> set ss. s_id x \<noteq> k}) (filter (\<lambda>c. f c \<noteq> k) cs)"
  using assms unfolding list_all_iff by force

lemma fk_ok_exec:
  assumes "fk_ok st" "exec stmt st = Inr st'"
  shows "fk_ok st'"
proof (cases stmt)
  case (InsertDetection d)
  with assms show ?thesis
    by (auto simp: fk_ok_def session_ids_def list_all_iff elim!: put_detection_Inr)
next
  case (UpdateDetection k f)
  with assms show ?thesis
    by (auto simp: fk_ok_def session_ids_def list_all_iff split: list.splits elim!: put_detection_Inr)
next
  case (InsertMassEstimate m)
  with assms show ?thesis
    by (auto simp: fk_ok_def session_ids_def list_all_iff elim!: put_mass_estimate_Inr)
next
  case (UpdateMassEstimate k f)
  with assms show ?thesis
    by (auto simp: fk_ok_def session_ids_def list_all_iff split: list.splits elim!: put_mass_estimate_Inr)
next
  case (DeleteSession k)
  with assms show ?thesis
    by (auto simp: fk_ok_def session_ids_def intro: fk_filter)
qed (use assms in \<open>auto simp: fk_ok_def session_ids_def list_all_iff split: if_splits\<close>)

lemma replace_absent:
  "k \<notin> set (map idf xs) \<Longrightarrow> map (\<lambda>x. if idf x = k then row else x) xs = xs"
  by (induction xs) auto

lemma filter_absent:
  "k \<notin> set (map idf xs) \<Longrightarrow> filter (\<lambda>x. idf x \<noteq> k) xs = xs"
  by (induction xs) auto

lemma distinct_replace:
  assumes "distinct (map idf xs)" "distinct (map key xs)"
    and "key row \<notin> set (map key (filter (\<lambda>x. idf x \<noteq> k) xs))"
  shows "distinct (map key (map (\<lambda>x. if idf x = k then row else x) xs))"
  using assms
proof (induction xs)
  case Nil
  then show ?case by simp
next
  case (Cons x xs)
  show ?case
  proof (cases "idf x = k")
    case True
    with Cons.prems have "k \<notin> set (map idf xs)" by auto
    then have "map (\<lambda>x. if idf x = k then row else x) xs = xs" "filter (\<lambda>x. idf x \<noteq> k) xs = xs"
      by (simp_all add: replace_absent filter_absent)
    with Cons.prems True show ?thesis by auto
  next
    case False
    from Cons.prems False have kx: "key row \<noteq> key x" and kxs: "key x \<notin> set (map key xs)"
      by auto
    have "key x \<noteq> key (if idf y = k then row else y)" if "y \<in> set xs" for y
      using that kx kxs by (cases "idf y = k") auto
    then have "key x \<notin> set (map key (map (\<lambda>x. if idf x = k then row else x) xs))"
      by auto
    moreover have "distinct (map key (map (\<lambda>x. if idf x = k then row else x) xs))"
      using Cons.IH Cons.prems False by auto
    ultimately show ?thesis using False by simp
  qed
qed

lemma distinct_filter_map: "distinct (map f xs) \<Longrightarrow> distinct (map f (filter P xs))"
  by (simp add: distinct_map_filter)

lemma unique_ok_exec:
  assumes "unique_ok st" "exec stmt st = Inr st'"
  shows "unique_ok st'"
proof (cases stmt)
  case (InsertDetection d)
  with assms show ?thesis
    by (auto simp: unique_ok_def session_ids_def elim!: put_detection_Inr)
next
  case (UpdateDetection k f)
  show ?thesis
  proof (cases "filter (\<lambda>d. d_id d = k) (isotope_detections st)")
    case Nil
    with assms UpdateDetection show ?thesis by simp
  next
    case (Cons old rest)
    with assms UpdateDetection obtain row where
      r: "d_id row \<notin> set (map d_id (filter (\<lambda>d. d_id d \<noteq> k) (isotope_detections st)))"
         "detection_key row \<notin> set (map detection_key (filter (\<lambda>d. d_id d \<noteq> k) (isotope_detections st)))"
         "st' = st\<lparr>isotope_detections := map (\<lambda>d. if d_id d = k then row else d) (isotope_detections st)\<rparr>"
      by (auto elim!: put_detection_Inr)
    from assms(1) have d: "distinct (map d_id (isotope_detections st))"
      "distinct (map detection_key (isotope_detections st))"
      by (simp_all add: unique_ok_def)
    have "distinct (map d_id (map (\<lambda>d. if d_id d = k then row else d) (isotope_detections st)))"
      by (rule distinct_replace [OF d(1) d(1) r(1)])
    moreover have "distinct (map detection_key (map (\<lambda>d. if d_id d = k then row else d) (isotope_detections st)))"
      by (rule distinct_replace [OF d(1) d(2) r(2)])
    ultimately show ?thesis using assms(1) r(3)
      by (simp add: unique_ok_def session_ids_def)
  qed
next
  case (InsertMassEstimate m)
  with assms show ?thesis
    by (auto simp: unique_ok_def session_ids_def elim!: put_mass_estimate_Inr)
next
  case (UpdateMassEstimate k f)
  show ?thesis
  proof (cases "filter (\<lambda>m. m_id m = k) (mass_estimates st)")
    case Nil
    with assms UpdateMassEstimate show ?thesis by simp
  next
    case (Cons old rest)
    with assms UpdateMassEstimate obtain row where
      r: "m_id row \<notin> set (map m_id (filter (\<lambda>m. m_id m \<noteq> k) (mass_estimates st)))"
         "mass_estimate_key row \<notin> set (map mass_estimate_key (filter (\<lambda>m. m_id m \<noteq> k) (mass_estimates st)))"
         "st' = st\<lparr>mass_estimates := map (\<lambda>m. if m_id m = k then row else m) (mass_estimates st)\<rparr>"
      by (auto elim!: put_mass_estimate_Inr)
    from assms(1) have d: "distinct (map m_id (mass_estimates st))"
      "distinct (map mass_estimate_key (mass_estimates st))"
      by (simp_all add: unique_ok_def)
    have "distinct (map m_id (map (\<lambda>m. if m_id m = k then row else m) (mass_estimates st)))"
      by (rule distinct_replace [OF d(1) d(1) r(1)])
    moreover have "distinct (map mass_estimate_key (map (\<lambda>m. if m_id m = k then row else m) (mass_estimates st)))"
      by (rule distinct_replace [OF d(1) d(2) r(2)])
    ultimately show ?thesis using assms(1) r(3)
      by (simp add: unique_ok_def session_ids_def)
  qed
next
  case (DeleteSession k)
  with assms show ?thesis
    by (auto simp: unique_ok_def session_ids_def intro: distinct_filter_map)
qed (use assms in \<open>auto simp: unique_ok_def session_ids_def split: if_splits\<close>)

lemma summaries_ok_exec:
  assumes "summaries_ok st" "exec stmt st = Inr st'"
  shows "summaries_ok st'"
proof (cases stmt)
  case (InsertDetection d)
  with assms show ?thesis by (auto simp: summaries_ok_def elim!: put_detection_Inr)
next
  case (UpdateDetection k f)
  with assms show ?thesis by (auto simp: summaries_ok_def split: list.splits elim!: put_detection_Inr)
next
  case (InsertMassEstimate m)
  with assms show ?thesis by (auto simp: summaries_ok_def elim!: put_mass_estimate_Inr)
next
  case (UpdateMassEstimate k f)
  with assms show ?thesis by (auto simp: summaries_ok_def split: list.splits elim!: put_mass_estimate_Inr)
qed (use assms in \<open>auto simp: summaries_ok_def list_all_iff split: if_splits\<close>)

lemma store_ok_empty: "store_ok empty_store"
  by (simp add: store_ok_def fk_ok_def unique_ok_def derived_ok_def summaries_ok_def empty_store_def session_ids_def)

lemma store_ok_run: "store_ok st \<Longrightarrow> store_ok (run stmt st)"
  unfolding run_def store_ok_def
  by (cases "exec stmt st") (auto intro: fk_ok_exec unique_ok_exec derived_ok_exec summaries_ok_exec)

lemma store_ok_run_all: "store_ok st \<Longrightarrow> store_ok (run_all stmts st)"
  by (induction stmts arbitrary: st) (auto intro: store_ok_run)

lemma store_ok_reachable: "store_ok (run_all stmts empty_store)"
  by (rule store_ok_run_all [OF store_ok_empty])

section \<open>Derived relative uncertainties\<close>

lemma float4_div_1_9: "float4_div (Finite 1) (Finite 9) = Inr (Finite (14913081 / 134217728))"
  apply (simp add: float4_div_def Let_def)
  apply (subst round_float4_eq [where e = "- 4"]; simp add: round_even_def)+
  done

lemma float4_div_NaN: "float4_div (Finite 10) NaN = Inr NaN"
  by (simp add: float4_div_def)

lemma float4_NaN_positive: "(0 :: float4) < NaN"
  by (simp add: less_float4_def float4_key_def)

lemma validate_isotope_detection_ignores:
  "validate_isotope_detection (d\<lparr>relative_uncertainty := x\<rparr>) = validate_isotope_detection d"
  by (auto simp: validate_isotope_detection_def split: sum.splits)

lemma validate_mass_estimate_ignores:
  "validate_mass_estimate (m\<lparr>relative_mass_uncertainty := y\<rparr>) = validate_mass_estimate m"
  by (auto simp: validate_mass_estimate_def split: sum.splits)

text \<open>
  Claim C9. The derivation rule is idempotent: a row that a trigger function returns is
  returned unchanged when the function is applied to it again, and the function does not
  read the relative uncertainty of its argument, so its result depends on the magnitude and
  the uncertainty alone; for detections and for mass estimates, NaN and infinite values
  included.
\<close>

theorem derivation_idempotent:
  "(\<forall>d'. validate_isotope_detection d = Inr d' \<longrightarrow> validate_isotope_detection d' = Inr d') \<and>
   validate_isotope_detection (d\<lparr>relative_uncertainty := x\<rparr>) = validate_isotope_detection d \<and>
   (\<forall>m'. validate_mass_estimate m = Inr m' \<longrightarrow> validate_mass_estimate m' = Inr m') \<and>
   validate_mass_estimate (m\<lparr>relative_mass_uncertainty := y\<rparr>) = validate_mass_estimate m"
  using validate_isotope_detection_fixed [of d] validate_mass_estimate_fixed [of m]
    validate_isotope_detection_ignores [of x d] validate_mass_estimate_ignores [of y m]
  by blast

theorem derivation_idempotent_witness:
  "validate_isotope_detection ex_detection =
     Inr (ex_detection\<lparr>relative_uncertainty := Some (Finite (13421773 / 268435456))\<rparr>) \<and>
   validate_isotope_detection (ex_detection\<lparr>relative_uncertainty := Some (Finite (13421773 / 268435456))\<rparr>) =
     Inr (ex_detection\<lparr>relative_uncertainty := Some (Finite (13421773 / 268435456))\<rparr>) \<and>
   validate_isotope_detection (ex_detection\<lparr>detected_counts := NaN\<rparr>) =
     Inr (ex_detection\<lparr>detected_counts := NaN, relative_uncertainty := Some NaN\<rparr>) \<and>
   validate_isotope_detection (ex_detection\<lparr>detected_counts := NaN, relative_uncertainty := Some NaN\<rparr>) =
     Inr (ex_detection\<lparr>detected_counts := NaN, relative_uncertainty := Some NaN\<rparr>) \<and>
   validate_mass_estimate ex_mass =
     Inr (ex_mass\<lparr>relative_mass_uncertainty := Some (Finite (13421773 / 67108864))\<rparr>) \<and>
   validate_mass_estimate (ex_mass\<lparr>relative_mass_uncertainty := Some (Finite (13421773 / 67108864))\<rparr>) =
     Inr (ex_mass\<lparr>relative_mass_uncertainty := Some (Finite (13421773 / 67108864))\<rparr>)"
proof -
  have d: "validate_isotope_detection ex_detection =
      Inr (ex_detection\<lparr>relative_uncertainty := Some (Finite (13421773 / 268435456))\<rparr>)"
    by (simp add: ex_defs validate_isotope_detection_def float4_divs)
  have n: "validate_isotope_detection (ex_detection\<lparr>detected_counts := NaN\<rparr>) =
      Inr (ex_detection\<lparr>detected_counts := NaN, relative_uncertainty := Some NaN\<rparr>)"
    using float4_NaN_positive
    by (simp add: ex_defs validate_isotope_detection_def float4_div_NaN del: float4_order_simps)
  have m: "validate_mass_estimate ex_mass =
      Inr (ex_mass\<lparr>relative_mass_uncertainty := Some (Finite (13421773 / 67108864))\<rparr>)"
    by (simp add: ex_defs validate_mass_estimate_def float4_divs)
  from d n m
    derivation_idempotent [where d = ex_detection and m = ex_mass]
    derivation_idempotent [where d = "ex_detection\<lparr>detected_counts := NaN\<rparr>" and m = ex_mass]
  show ?thesis by blast
qed

lemma validate_isotope_detection_result:
  assumes "validate_isotope_detection d = Inr row"
  shows "\<exists>r. row = d\<lparr>relative_uncertainty := r\<rparr> \<and>
     (0 < detected_counts d \<longrightarrow>
        (\<exists>q. r = Some q \<and> float4_div (count_uncertainty d) (detected_counts d) = Inr q)) \<and>
     (\<not> 0 < detected_counts d \<longrightarrow> r = None)"
  using assms unfolding validate_isotope_detection_Inr by (auto split: if_splits)

lemma validate_mass_estimate_result:
  assumes "validate_mass_estimate m = Inr row"
  shows "\<exists>r. row = m\<lparr>relative_mass_uncertainty := r\<rparr> \<and>
     (0 < estimated_mass_g m \<longrightarrow>
        (\<exists>q. r = Some q \<and> float4_div (mass_uncertainty_g m) (estimated_mass_g m) = Inr q)) \<and>
     (\<not> 0 < estimated_mass_g m \<longrightarrow> r = None)"
  using assms unfolding validate_mass_estimate_Inr by (auto split: if_splits)














text \<open>
  Claim C10. The relative uncertainty a writer supplies in an \<open>INSERT\<close> or in the \<open>SET\<close> list
  of an \<open>UPDATE\<close> has no effect on the outcome of the statement, whatever else the statement
  changes; and in every reachable store each detection and each mass estimate carries the
  value the trigger derives from its own uncertainty and magnitude: their \<open>REAL\<close> quotient
  when the magnitude is positive, \<open>NULL\<close> otherwise.
\<close>

theorem caller_relative_uncertainty_discarded:
  "exec (InsertDetection (d\<lparr>relative_uncertainty := x\<rparr>)) st = exec (InsertDetection d) st \<and>
   exec (UpdateDetection k (\<lambda>old. (f old)\<lparr>relative_uncertainty := g old\<rparr>)) st =
     exec (UpdateDetection k f) st \<and>
   exec (InsertMassEstimate (m\<lparr>relative_mass_uncertainty := x\<rparr>)) st = exec (InsertMassEstimate m) st \<and>
   exec (UpdateMassEstimate k (\<lambda>old. (h old)\<lparr>relative_mass_uncertainty := g' old\<rparr>)) st =
     exec (UpdateMassEstimate k h) st \<and>
   (\<forall>d \<in> set (isotope_detections (run_all stmts empty_store)).
      (0 < detected_counts d \<longrightarrow>
         (\<exists>q. relative_uncertainty d = Some q \<and>
              float4_div (count_uncertainty d) (detected_counts d) = Inr q)) \<and>
      (\<not> 0 < detected_counts d \<longrightarrow> relative_uncertainty d = None)) \<and>
   (\<forall>m \<in> set (mass_estimates (run_all stmts empty_store)).
      (0 < estimated_mass_g m \<longrightarrow>
         (\<exists>q. relative_mass_uncertainty m = Some q \<and>
              float4_div (mass_uncertainty_g m) (estimated_mass_g m) = Inr q)) \<and>
      (\<not> 0 < estimated_mass_g m \<longrightarrow> relative_mass_uncertainty m = None))"
proof -
  have "derived_ok (run_all stmts empty_store)"
    using store_ok_reachable [of stmts] by (simp add: store_ok_def)
  then have inv: "\<forall>d \<in> set (isotope_detections (run_all stmts empty_store)). validate_isotope_detection d = Inr d"
    "\<forall>m \<in> set (mass_estimates (run_all stmts empty_store)). validate_mass_estimate m = Inr m"
    by (simp_all add: derived_ok_def list_all_iff)
  have d: "(0 < detected_counts r \<longrightarrow>
         (\<exists>q. relative_uncertainty r = Some q \<and>
              float4_div (count_uncertainty r) (detected_counts r) = Inr q)) \<and>
      (\<not> 0 < detected_counts r \<longrightarrow> relative_uncertainty r = None)"
    if "validate_isotope_detection r = Inr r" for r
    using validate_isotope_detection_result [OF that]
    by (metis detection_row.select_convs(8) detection_row.surjective detection_row.update_convs(8))
  have m: "(0 < estimated_mass_g r \<longrightarrow>
         (\<exists>q. relative_mass_uncertainty r = Some q \<and>
              float4_div (mass_uncertainty_g r) (estimated_mass_g r) = Inr q)) \<and>
      (\<not> 0 < estimated_mass_g r \<longrightarrow> relative_mass_uncertainty r = None)"
    if "validate_mass_estimate r = Inr r" for r
    using validate_mass_estimate_result [OF that]
    by (metis mass_estimate_row.select_convs(6) mass_estimate_row.surjective mass_estimate_row.update_convs(6))
  have w: "exec (InsertDetection (d\<lparr>relative_uncertainty := x\<rparr>)) st = exec (InsertDetection d) st \<and>
   exec (UpdateDetection k (\<lambda>old. (f old)\<lparr>relative_uncertainty := g old\<rparr>)) st =
     exec (UpdateDetection k f) st \<and>
   exec (InsertMassEstimate (m\<lparr>relative_mass_uncertainty := x\<rparr>)) st = exec (InsertMassEstimate m) st \<and>
   exec (UpdateMassEstimate k (\<lambda>old. (h old)\<lparr>relative_mass_uncertainty := g' old\<rparr>)) st =
     exec (UpdateMassEstimate k h) st"
    by (simp add: put_detection_def put_mass_estimate_def validate_isotope_detection_ignores
        validate_mass_estimate_ignores split: list.splits)
  from w inv d m show ?thesis by blast
qed

theorem caller_relative_uncertainty_discarded_witness:
  "map relative_uncertainty
     (isotope_detections
        (run_all [InsertSession ex_session, InsertDetection ex_detection,
                  UpdateDetection 1 (\<lambda>old. old\<lparr>relative_uncertainty := Some (Finite 99)\<rparr>)] empty_store))
     = [Some (Finite (13421773 / 268435456))] \<and>
   map relative_mass_uncertainty
     (mass_estimates
        (run_all [InsertSession ex_session, InsertMassEstimate ex_mass,
                  UpdateMassEstimate 1 (\<lambda>old. old\<lparr>relative_mass_uncertainty := Some (Finite 99)\<rparr>)] empty_store))
     = [Some (Finite (13421773 / 67108864))]"
  using
    caller_relative_uncertainty_discarded
      [where stmts = "[InsertSession ex_session, InsertDetection ex_detection,
                  UpdateDetection 1 (\<lambda>old. old\<lparr>relative_uncertainty := Some (Finite 99)\<rparr>)]"]
    caller_relative_uncertainty_discarded
      [where stmts = "[InsertSession ex_session, InsertMassEstimate ex_mass,
                  UpdateMassEstimate 1 (\<lambda>old. old\<lparr>relative_mass_uncertainty := Some (Finite 99)\<rparr>)]"]
  by (simp add: ex_defs exec_defs float4_divs)

section \<open>Uniqueness of mass estimates\<close>

text \<open>
  Claim C7. An \<open>INSERT\<close> of a mass estimate whose session and parent isotope are those of a
  stored estimate fails, with a unique violation when the trigger returns a row that passes
  the checks, and the store after it is the store before it.
\<close>

theorem duplicate_mass_estimate_rejected:
  assumes "mass_estimate_key m \<in> set (map mass_estimate_key (mass_estimates st))"
  shows "(\<exists>e. exec (InsertMassEstimate m) st = Inl e) \<and>
         run (InsertMassEstimate m) st = st \<and>
         (\<forall>row. validate_mass_estimate m = Inr row \<and> mass_estimate_checks row \<longrightarrow>
            exec (InsertMassEstimate m) st = Inl UniqueViolation)"
proof -
  have key: "mass_estimate_key row = mass_estimate_key m" if "validate_mass_estimate m = Inr row" for row
    using validate_mass_estimate_result [OF that] by (auto simp: mass_estimate_key_def)
  from assms key have e: "\<exists>e. exec (InsertMassEstimate m) st = Inl e"
    by (auto simp: put_mass_estimate_def split: sum.splits)
  then have "run (InsertMassEstimate m) st = st"
    by (auto simp: run_def)
  moreover from assms key have "\<forall>row. validate_mass_estimate m = Inr row \<and> mass_estimate_checks row \<longrightarrow>
            exec (InsertMassEstimate m) st = Inl UniqueViolation"
    by (auto simp: put_mass_estimate_def)
  ultimately show ?thesis using e by blast
qed

theorem duplicate_mass_estimate_rejected_witness:
  "exec (InsertMassEstimate (ex_mass\<lparr>m_id := 3, estimated_mass_g := Finite 9\<rparr>)) ex_full_store = Inl UniqueViolation \<and>
   run (InsertMassEstimate (ex_mass\<lparr>m_id := 3, estimated_mass_g := Finite 9\<rparr>)) ex_full_store = ex_full_store \<and>
   map estimated_mass_g (mass_estimates (run (InsertMassEstimate (ex_mass\<lparr>m_id := 3, estimated_mass_g := Finite 9\<rparr>)) ex_full_store)) =
     [Finite 5, Finite 5]"
proof -
  have k: "mass_estimate_key (ex_mass\<lparr>m_id := 3, estimated_mass_g := Finite 9\<rparr>)
            \<in> set (map mass_estimate_key (mass_estimates ex_full_store))"
    by (simp add: ex_defs2 exec_defs float4_divs)
  have v: "validate_mass_estimate (ex_mass\<lparr>m_id := 3, estimated_mass_g := Finite 9\<rparr>) =
      Inr (ex_mass\<lparr>m_id := 3, estimated_mass_g := Finite 9,
             relative_mass_uncertainty := Some (Finite (14913081 / 134217728))\<rparr>)"
    by (simp add: ex_defs validate_mass_estimate_def float4_div_1_9)
  have c: "mass_estimate_checks (ex_mass\<lparr>m_id := 3, estimated_mass_g := Finite 9,
             relative_mass_uncertainty := Some (Finite (14913081 / 134217728))\<rparr>)"
    by (simp add: ex_defs mass_estimate_checks_def check_nonneg_def)
  have "map estimated_mass_g (mass_estimates ex_full_store) = [Finite 5, Finite 5]"
    by (simp add: ex_defs2 exec_defs float4_divs)
  with duplicate_mass_estimate_rejected [OF k] v c show ?thesis
    by auto
qed

section \<open>The summary table\<close>

text \<open>
  Claim C2, as the specification states it, fails: the schema has no trigger on
  \<open>analysis_summary\<close> or on \<open>mass_estimates\<close> that computes the total. Here a writer stores
  a summary that agrees with the mass estimate of the session and then updates the estimate:
  the total stays 5 while the only estimate of the session is 3.
\<close>

theorem summary_total_counterexample:
  "map (\<lambda>r. (total_estimated_mass_g r, session_masses ex_stale_store (sum_analysis_id r)))
     (analysis_summary ex_stale_store) = [(Finite 5, [Finite 3])]"
  by (simp add: ex_stale_store_def session_masses_def ex_defs2 exec_defs float4_divs)

lemma exec_mass_keeps_summary:
  "exec (InsertMassEstimate m) st = Inr st' \<Longrightarrow> analysis_summary st' = analysis_summary st"
  "exec (UpdateMassEstimate k f) st = Inr st' \<Longrightarrow> analysis_summary st' = analysis_summary st"
  by (auto split: list.splits elim!: put_mass_estimate_Inr)

text \<open>
  Claim C2, amended. In every reachable store a session has at most one summary, every
  summary belongs to a stored session and its total is not negative; the total is the value
  of the inserted row, statements on mass estimates leave every summary as it is, and so
  does a statement that fails.
\<close>

theorem summary_total_is_stored_value:
  "distinct (map sum_analysis_id (analysis_summary (run_all stmts empty_store))) \<and>
   (\<forall>r \<in> set (analysis_summary (run_all stmts empty_store)).
      sum_analysis_id r \<in> set (session_ids (run_all stmts empty_store)) \<and>
      0 \<le> total_estimated_mass_g r) \<and>
   (\<forall>st'. exec (InsertSummary r) st = Inr st' \<longrightarrow> analysis_summary st' = analysis_summary st @ [r]) \<and>
   (\<forall>st'. exec (InsertMassEstimate m) st = Inr st' \<longrightarrow> analysis_summary st' = analysis_summary st) \<and>
   (\<forall>st'. exec (UpdateMassEstimate k f) st = Inr st' \<longrightarrow> analysis_summary st' = analysis_summary st) \<and>
   (\<forall>e. exec stmt st = Inl e \<longrightarrow> run stmt st = st)"
proof -
  have ok: "store_ok (run_all stmts empty_store)" by (rule store_ok_reachable)
  then have "distinct (map sum_analysis_id (analysis_summary (run_all stmts empty_store)))"
    by (simp add: store_ok_def unique_ok_def)
  moreover from ok have "\<forall>r \<in> set (analysis_summary (run_all stmts empty_store)).
      sum_analysis_id r \<in> set (session_ids (run_all stmts empty_store)) \<and>
      0 \<le> total_estimated_mass_g r"
    by (simp add: store_ok_def fk_ok_def summaries_ok_def summary_checks_def list_all_iff)
  moreover have "\<forall>st'. exec (InsertSummary r) st = Inr st' \<longrightarrow> analysis_summary st' = analysis_summary st @ [r]"
    by (auto split: if_splits)
  moreover have "\<forall>st'. exec (InsertMassEstimate m) st = Inr st' \<longrightarrow> analysis_summary st' = analysis_summary st"
    using exec_mass_keeps_summary(1) by blast
  moreover have "\<forall>st'. exec (UpdateMassEstimate k f) st = Inr st' \<longrightarrow> analysis_summary st' = analysis_summary st"
    using exec_mass_keeps_summary(2) by blast
  moreover have "\<forall>e. exec stmt st = Inl e \<longrightarrow> run stmt st = st"
    by (simp add: run_def)
  ultimately show ?thesis
    by blast
qed

theorem summary_total_is_stored_value_witness:
  "map total_estimated_mass_g (analysis_summary ex_stale_store) = [Finite 5] \<and>
   map sum_analysis_id (analysis_summary ex_stale_store) = [1] \<and>
   session_ids ex_stale_store = [1] \<and>
   run (InsertSummary (ex_summary\<lparr>sum_id := 2, total_estimated_mass_g := Finite 3\<rparr>)) ex_stale_store = ex_stale_store"
proof -
  have e: "exec (InsertSummary (ex_summary\<lparr>sum_id := 2, total_estimated_mass_g := Finite 3\<rparr>)) ex_stale_store = Inl UniqueViolation"
    by (simp add: ex_stale_store_def ex_defs2 exec_defs float4_divs)
  have "map total_estimated_mass_g (analysis_summary ex_stale_store) = [Finite 5] \<and>
     map sum_analysis_id (analysis_summary ex_stale_store) = [1] \<and>
     session_ids ex_stale_store = [1]"
    by (simp add: ex_stale_store_def ex_defs2 exec_defs float4_divs)
  moreover have "\<forall>e. exec (InsertSummary (ex_summary\<lparr>sum_id := 2, total_estimated_mass_g := Finite 3\<rparr>)) ex_stale_store = Inl e \<longrightarrow>
      run (InsertSummary (ex_summary\<lparr>sum_id := 2, total_estimated_mass_g := Finite 3\<rparr>)) ex_stale_store = ex_stale_store"
    by (rule summary_total_is_stored_value
      [where stmt = "InsertSummary (ex_summary\<lparr>sum_id := 2, total_estimated_mass_g := Finite 3\<rparr>)" and st = ex_stale_store,
       THEN conjunct2, THEN conjunct2, THEN conjunct2, THEN conjunct2, THEN conjunct2])
  ultimately show ?thesis using e by blast
qed

section \<open>Deleting a session\<close>

text \<open>
  Claim C8. Deleting session \<open>k\<close> always succeeds; it removes the session and exactly the
  plots, detections, mass estimates and summaries of \<open>k\<close>; no row of the join under
  \<open>mass_comparison\<close> comes from \<open>k\<close>; and in a reachable store every row left belongs to a
  session that is left.
\<close>

theorem delete_session_cascades:
  "exec (DeleteSession k) st = Inr (run (DeleteSession k) st) \<and>
   analysis_sessions (run (DeleteSession k) st) = filter (\<lambda>s. s_id s \<noteq> k) (analysis_sessions st) \<and>
   analysis_plots (run (DeleteSession k) st) = filter (\<lambda>p. p_analysis_id p \<noteq> k) (analysis_plots st) \<and>
   isotope_detections (run (DeleteSession k) st) = filter (\<lambda>d. d_analysis_id d \<noteq> k) (isotope_detections st) \<and>
   mass_estimates (run (DeleteSession k) st) = filter (\<lambda>m. m_analysis_id m \<noteq> k) (mass_estimates st) \<and>
   analysis_summary (run (DeleteSession k) st) = filter (\<lambda>r. sum_analysis_id r \<noteq> k) (analysis_summary st) \<and>
   k \<notin> set (session_ids (run (DeleteSession k) st)) \<and>
   k \<notin> set (map p_analysis_id (analysis_plots (run (DeleteSession k) st))) \<and>
   k \<notin> set (map d_analysis_id (isotope_detections (run (DeleteSession k) st))) \<and>
   k \<notin> set (map m_analysis_id (mass_estimates (run (DeleteSession k) st))) \<and>
   k \<notin> set (map sum_analysis_id (analysis_summary (run (DeleteSession k) st))) \<and>
   k \<notin> set (map (\<lambda>(s, m). s_id s) (mass_comparison_join (run (DeleteSession k) st))) \<and>
   k \<notin> set (map (\<lambda>(s, m). m_analysis_id m) (mass_comparison_join (run (DeleteSession k) st))) \<and>
   (st = run_all stmts empty_store \<longrightarrow>
      (\<forall>p \<in> set (analysis_plots (run (DeleteSession k) st)).
         p_analysis_id p \<in> set (session_ids (run (DeleteSession k) st))) \<and>
      (\<forall>d \<in> set (isotope_detections (run (DeleteSession k) st)).
         d_analysis_id d \<in> set (session_ids (run (DeleteSession k) st))) \<and>
      (\<forall>m \<in> set (mass_estimates (run (DeleteSession k) st)).
         m_analysis_id m \<in> set (session_ids (run (DeleteSession k) st))) \<and>
      (\<forall>r \<in> set (analysis_summary (run (DeleteSession k) st)).
         sum_analysis_id r \<in> set (session_ids (run (DeleteSession k) st))))"
proof -
  have r: "run (DeleteSession k) st =
      \<lparr>analysis_sessions = filter (\<lambda>s. s_id s \<noteq> k) (analysis_sessions st),
       analysis_plots = filter (\<lambda>p. p_analysis_id p \<noteq> k) (analysis_plots st),
       isotope_detections = filter (\<lambda>d. d_analysis_id d \<noteq> k) (isotope_detections st),
       mass_estimates = filter (\<lambda>m. m_analysis_id m \<noteq> k) (mass_estimates st),
       analysis_summary = filter (\<lambda>r. sum_analysis_id r \<noteq> k) (analysis_summary st)\<rparr>"
    by (simp add: run_def)
  have fk: "fk_ok (run (DeleteSession k) st)" if "st = run_all stmts empty_store"
    using store_ok_run [OF store_ok_reachable, of "DeleteSession k" stmts] that
    by (simp add: store_ok_def)
  have j: "k \<notin> set (map (\<lambda>(s, m). s_id s) (mass_comparison_join (run (DeleteSession k) st)))"
    "k \<notin> set (map (\<lambda>(s, m). m_analysis_id m) (mass_comparison_join (run (DeleteSession k) st)))"
    by (auto simp: r mass_comparison_join_def)
  show ?thesis
    apply (intro conjI impI)
    subgoal by (simp add: run_def)
    subgoal by (simp add: r)
    subgoal by (simp add: r)
    subgoal by (simp add: r)
    subgoal by (simp add: r)
    subgoal by (simp add: r)
    subgoal by (auto simp: r session_ids_def)
    subgoal by (auto simp: r)
    subgoal by (auto simp: r)
    subgoal by (auto simp: r)
    subgoal by (auto simp: r)
    subgoal by (rule j)
    subgoal by (rule j)
    subgoal using fk by (simp add: fk_ok_def list_all_iff)
    subgoal using fk by (simp add: fk_ok_def list_all_iff)
    subgoal using fk by (simp add: fk_ok_def list_all_iff)
    subgoal using fk by (simp add: fk_ok_def list_all_iff)
    done
qed

theorem delete_session_cascades_witness:
  "session_ids (run (DeleteSession 1) ex_full_store) = [2] \<and>
   analysis_plots (run (DeleteSession 1) ex_full_store) = [] \<and>
   isotope_detections (run (DeleteSession 1) ex_full_store) = [] \<and>
   map m_id (mass_estimates (run (DeleteSession 1) ex_full_store)) = [2] \<and>
   analysis_summary (run (DeleteSession 1) ex_full_store) = [] \<and>
   map (\<lambda>(s, m). (s_id s, m_id m)) (mass_comparison_join (run (DeleteSession 1) ex_full_store)) = [(2, 2)] \<and>
   map m_id (mass_estimates ex_full_store) = [1, 2] \<and>
   map p_id (analysis_plots ex_full_store) = [1] \<and>
   map d_id (isotope_detections ex_full_store) = [1] \<and>
   map sum_id (analysis_summary ex_full_store) = [1]"
  using delete_session_cascades [of 1 ex_full_store "[InsertSession ex_session, InsertSession (ex_session\<lparr>s_id := 2\<rparr>),
              InsertDetection ex_detection, InsertMassEstimate ex_mass, InsertPlot ex_plot,
              InsertSummary ex_summary,
              InsertMassEstimate (ex_mass\<lparr>m_id := 2, m_analysis_id := 2\<rparr>)]"]
  by (simp add: ex_defs2 exec_defs float4_divs mass_comparison_join_def)

section \<open>The views of the platform schema\<close>

lemmas view_defs = analysis_summary_view_def completed_def left_join_unnest_def left_join_day_def
  daily_group_def sql_avg_def date_trunc_day_def nulls_last_def
  isotope_frequency_def frequency_group_def unnest_completed_def numeric_div_def sql_round2_def

text \<open>
  Claim C3 against the code. \<open>COUNT(*)\<close> and \<open>AVG\<close> of the daily view run over the rows of the
  join with \<open>unnest(isotope_families_detected)\<close>, so an analysis with two isotopes counts
  twice: one completed analysis gives \<open>total_analyses = 2\<close>, and two analyses with 10 and 20
  peaks, the first with three isotopes, give \<open>total_analyses = 4\<close> and \<open>avg_peaks = 12.5\<close>.
\<close>

theorem daily_rollup_counts_join_rows:
  "length (completed [ex_analysis]) = 1 \<and>
   map (\<lambda>r. (analysis_date r, total_analyses r)) (analysis_summary_view [ex_analysis]) = [(Some 86400, 2)] \<and>
   map total_peaks_found (completed ex_table) = [10, 20] \<and>
   map (\<lambda>r. (analysis_date r, total_analyses r, avg_peaks r)) (analysis_summary_view ex_table) =
     [(Some 86400, 4, Some (25 / 2))]"
  by (simp add: ex_analysis_def ex_table_def view_defs)

text \<open>
  Claim C6, as the specification states it, fails on its second half: \<open>COUNT(*)\<close> counts the
  occurrences of an isotope, so an array that lists an isotope twice counts twice.
\<close>

theorem isotope_frequency_counterexample:
  "isotope_frequency [ex_analysis\<lparr>isotope_families_detected := [''Cs-137'', ''Cs-137'']\<rparr>] =
     Inr [\<lparr>isotope = ''Cs-137'', detection_count = 2, if_unique_samples = 1, detection_percentage = 200\<rparr>] \<and>
   length (filter (\<lambda>a. ''Cs-137'' \<in> set (isotope_families_detected a))
     (completed [ex_analysis\<lparr>isotope_families_detected := [''Cs-137'', ''Cs-137'']\<rparr>])) = 1"
  by (simp add: ex_analysis_def view_defs)

lemma unnest_one:
  "concat (map (\<lambda>nuc. if c then [(r, nuc)] else []) xs) = (if c then map (Pair r) xs else [])"
  by (induction xs) auto

lemma unnest_completed_eq:
  "unnest_completed table =
     concat (map (\<lambda>r. map (Pair r) (isotope_families_detected r)) (completed table))"
  unfolding unnest_completed_def completed_def
  by (induction table) (auto simp: unnest_one)

lemma length_filter_pair:
  "length (filter ((\<lambda>(r, i). i = x) \<circ> Pair a) xs) = count_list xs x"
  by (induction xs) auto

lemma length_filter_unnest:
  "length (filter (\<lambda>(r, i). i = x) (concat (map (\<lambda>r. map (Pair r) (fams r)) cs))) =
     sum_list (map (\<lambda>a. count_list (fams a) x) cs)"
  by (induction cs) (auto simp: length_filter_pair)

lemma samples_unnest:
  "set (map (\<lambda>(r, i). sample_name r)
          (filter (\<lambda>(r, i). i = x) (concat (map (\<lambda>r. map (Pair r) (fams r)) cs)))) =
     sample_name ` {a \<in> set cs. x \<in> set (fams a)}"
  by force

lemma count_list_distinct:
  "distinct xs \<Longrightarrow> count_list xs x = (if x \<in> set xs then 1 else 0)"
  by (induction xs) auto

lemma sum_count_distinct:
  "\<forall>a \<in> set cs. distinct (fams a) \<Longrightarrow>
     sum_list (map (\<lambda>a. count_list (fams a) x) cs) = length (filter (\<lambda>a. x \<in> set (fams a)) cs)"
  by (induction cs) (auto simp: count_list_distinct)

lemma collect_map_Inr:
  "\<forall>x \<in> set xs. f x = Inr (g x) \<Longrightarrow> collect (map f xs) = Inr (map g xs)"
  by (induction xs) auto

lemma unnested_isotopes:
  "set (map snd (unnest_completed table)) =
     (\<Union>a \<in> set (completed table). set (isotope_families_detected a))"
  by (force simp: unnest_completed_eq)

lemma frequency_group_eq:
  assumes "completed table \<noteq> []"
  shows "frequency_group table x = Inr (frequency_row table x)"
proof -
  have "length (remdups (map (\<lambda>(r, i). sample_name r)
          (filter (\<lambda>(r, i). i = x) (unnest_completed table)))) =
        card (sample_name ` {a \<in> set (completed table). x \<in> set (isotope_families_detected a)})"
    unfolding length_remdups_card_conv unnest_completed_eq samples_unnest ..
  with assms show ?thesis
    by (simp add: frequency_group_def frequency_row_def numeric_div_def Let_def
        unnest_completed_eq length_filter_unnest)
qed

lemma isotope_frequency_eq:
  "isotope_frequency table =
     Inr (sort_key (\<lambda>r. - int (detection_count r))
            (map (frequency_row table) (remdups (map snd (unnest_completed table)))))"
proof (cases "completed table = []")
  case True
  then show ?thesis by (simp add: isotope_frequency_def unnest_completed_eq)
next
  case False
  then have "collect (map (frequency_group table) (remdups (map snd (unnest_completed table)))) =
      Inr (map (frequency_row table) (remdups (map snd (unnest_completed table))))"
    by (intro collect_map_Inr) (simp add: frequency_group_eq)
  then show ?thesis by (simp add: isotope_frequency_def)
qed

lemma isotope_frequency_row: "isotope (frequency_row table x) = x"
  by (simp add: frequency_row_def)

lemma sorted_desc_counts:
  "sorted (rev (map detection_count (sort_key (\<lambda>r. - int (detection_count r)) rows)))"
proof -
  have "sorted (map (\<lambda>r. - int (detection_count r)) (sort_key (\<lambda>r. - int (detection_count r)) rows))"
    by (rule sorted_sort_key)
  then have "sorted_wrt (\<lambda>a b. detection_count a \<ge> detection_count b)
      (sort_key (\<lambda>r. - int (detection_count r)) rows)"
    by (simp add: sorted_map)
  then show ?thesis
    by (simp add: sorted_wrt_rev sorted_wrt_map rev_map [symmetric])
qed


lemma frequency_row_props:
  "detection_count (frequency_row table x) =
           sum_list (map (\<lambda>a. count_list (isotope_families_detected a) x) (completed table))"
  "if_unique_samples (frequency_row table x) =
           card (sample_name ` {a \<in> set (completed table). x \<in> set (isotope_families_detected a)})"
  "detection_percentage (frequency_row table x) =
           sql_round2 (real (detection_count (frequency_row table x)) / real (length (completed table)) * 100)"
  by (simp_all add: frequency_row_def)

lemma frequency_row_distinct:
  assumes "\<forall>a \<in> set (completed table). distinct (isotope_families_detected a)"
  shows "detection_count (frequency_row table x) =
              length (filter (\<lambda>a. x \<in> set (isotope_families_detected a)) (completed table))"
  using sum_count_distinct [OF assms] by (simp add: frequency_row_def)

lemma frequency_rows_isotopes:
  "map isotope (map (frequency_row table) ks) = ks"
  by (simp add: isotope_frequency_row comp_def)

lemma isotope_frequency_props:
  assumes "rows = sort_key (\<lambda>r. - int (detection_count r))
            (map (frequency_row table) (remdups (map snd (unnest_completed table))))"
  shows "isotope_frequency table = Inr rows"
    and "distinct (map isotope rows)"
    and "set (map isotope rows) = (\<Union>a \<in> set (completed table). set (isotope_families_detected a))"
    and "sorted (rev (map detection_count rows))"
    and "\<forall>r \<in> set rows. \<exists>x. r = frequency_row table x"
proof -
  let ?keys = "remdups (map snd (unnest_completed table))"
  show "isotope_frequency table = Inr rows"
    unfolding assms by (rule isotope_frequency_eq)
  have "mset (map isotope rows) = mset (map isotope (map (frequency_row table) ?keys))"
    unfolding assms by (simp only: mset_map mset_sort)
  then have m: "mset (map isotope rows) = mset ?keys"
    by (simp only: frequency_rows_isotopes)
  have "distinct ?keys" by simp
  with m show "distinct (map isotope rows)"
    by (simp only: mset_eq_imp_distinct_iff [OF m])
  from m have "set (map isotope rows) = set ?keys"
    by (rule mset_eq_setD)
  then show "set (map isotope rows) = (\<Union>a \<in> set (completed table). set (isotope_families_detected a))"
    by (simp only: set_remdups unnested_isotopes)
  show "sorted (rev (map detection_count rows))"
    unfolding assms by (rule sorted_desc_counts)
  show "\<forall>r \<in> set rows. \<exists>x. r = frequency_row table x"
    unfolding assms by (simp only: set_sort set_map) blast
qed

text \<open>
  Claim C6, amended. With no completed analysis the view is empty; it never raises. It has
  one row for each isotope that a completed analysis lists, by descending count; the count
  of a row is the number of occurrences of its isotope in the arrays of the completed
  analyses, which is the number of completed analyses that list it when no array repeats an
  isotope; \<open>unique_samples\<close> is the number of sample names among the analyses that list it;
  and the percentage is the count over the number of completed analyses, times 100, rounded
  to two places.
\<close>

theorem isotope_frequency_result:
  "(completed table = [] \<longrightarrow> isotope_frequency table = Inr []) \<and>
   (\<exists>rows. isotope_frequency table = Inr rows \<and>
      distinct (map isotope rows) \<and>
      set (map isotope rows) = (\<Union>a \<in> set (completed table). set (isotope_families_detected a)) \<and>
      sorted (rev (map detection_count rows)) \<and>
      (\<forall>r \<in> set rows.
         detection_count r =
           sum_list (map (\<lambda>a. count_list (isotope_families_detected a) (isotope r)) (completed table)) \<and>
         if_unique_samples r =
           card (sample_name ` {a \<in> set (completed table). isotope r \<in> set (isotope_families_detected a)}) \<and>
         detection_percentage r =
           sql_round2 (real (detection_count r) / real (length (completed table)) * 100) \<and>
         ((\<forall>a \<in> set (completed table). distinct (isotope_families_detected a)) \<longrightarrow>
            detection_count r =
              length (filter (\<lambda>a. isotope r \<in> set (isotope_families_detected a)) (completed table)))))"
proof -
  define rows where "rows = sort_key (\<lambda>r. - int (detection_count r))
            (map (frequency_row table) (remdups (map snd (unnest_completed table))))"
  note p = isotope_frequency_props [OF rows_def]
  have each: "detection_count r =
           sum_list (map (\<lambda>a. count_list (isotope_families_detected a) (isotope r)) (completed table)) \<and>
         if_unique_samples r =
           card (sample_name ` {a \<in> set (completed table). isotope r \<in> set (isotope_families_detected a)}) \<and>
         detection_percentage r =
           sql_round2 (real (detection_count r) / real (length (completed table)) * 100) \<and>
         ((\<forall>a \<in> set (completed table). distinct (isotope_families_detected a)) \<longrightarrow>
            detection_count r =
              length (filter (\<lambda>a. isotope r \<in> set (isotope_families_detected a)) (completed table)))"
    if "r \<in> set rows" for r
  proof -
    from that p(5) obtain x where r: "r = frequency_row table x" by blast
    show ?thesis
      unfolding r isotope_frequency_row
      using frequency_row_props [of table x] frequency_row_distinct [of table x] by blast
  qed
  have empty: "isotope_frequency table = Inr []" if "completed table = []"
    using that by (simp add: isotope_frequency_eq unnest_completed_eq)
  from p(1-4) each empty show ?thesis by blast
qed

theorem isotope_frequency_result_witness:
  "isotope_frequency [ex_analysis\<lparr>status := ''pending''\<rparr>] = Inr [] \<and>
   isotope_frequency (ex_table @ [ex_analysis\<lparr>ia_id := 3, ia_analysis_id := 3, isotope_families_detected := []\<rparr>]) =
     Inr [\<lparr>isotope = ''Cs-137'', detection_count = 2, if_unique_samples = 2, detection_percentage = 6667 / 100\<rparr>,
          \<lparr>isotope = ''Co-60'', detection_count = 1, if_unique_samples = 1, detection_percentage = 3333 / 100\<rparr>,
          \<lparr>isotope = ''K-40'', detection_count = 1, if_unique_samples = 1, detection_percentage = 3333 / 100\<rparr>]"
proof -
  have "completed [ex_analysis\<lparr>status := ''pending''\<rparr>] = []"
    by (simp add: completed_def ex_analysis_def)
  with isotope_frequency_result [of "[ex_analysis\<lparr>status := ''pending''\<rparr>]"]
  have "isotope_frequency [ex_analysis\<lparr>status := ''pending''\<rparr>] = Inr []" by blast
  moreover have "isotope_frequency (ex_table @ [ex_analysis\<lparr>ia_id := 3, ia_analysis_id := 3, isotope_families_detected := []\<rparr>]) =
     Inr [\<lparr>isotope = ''Cs-137'', detection_count = 2, if_unique_samples = 2, detection_percentage = 6667 / 100\<rparr>,
          \<lparr>isotope = ''Co-60'', detection_count = 1, if_unique_samples = 1, detection_percentage = 3333 / 100\<rparr>,
          \<lparr>isotope = ''K-40'', detection_count = 1, if_unique_samples = 1, detection_percentage = 3333 / 100\<rparr>]"
    by (simp add: ex_analysis_def ex_table_def view_defs)
  ultimately show ?thesis by simp
qed

section \<open>The views of schema.md\<close>

lemma lex_le:
  "((a :: 'a :: linorder), (b :: 'b :: linorder)) \<le> (c, d) \<longleftrightarrow> a < c \<or> a = c \<and> b \<le> d"
  by (auto simp: less_eq_prod_def)

subsection \<open>Joins on the session key\<close>

lemma join_inner:
  "concat (map (\<lambda>m. map snd (if c m then [(s, m)] else [])) ms) = filter c ms"
  by (induction ms) auto

lemma mset_filter_disjoint:
  "\<forall>m \<in> set ms. \<not> (P m \<and> Q m) \<Longrightarrow>
     mset (filter P ms) + mset (filter Q ms) = mset (filter (\<lambda>m. P m \<or> Q m) ms)"
  by (induction ms) auto

lemma join_outer:
  "distinct (map sid ss) \<Longrightarrow>
     mset (concat (map (\<lambda>s. filter (\<lambda>m. sid s = aid m) ms) ss)) =
     mset (filter (\<lambda>m. aid m \<in> set (map sid ss)) ms)"
proof (induction ss)
  case Nil
  then show ?case by simp
next
  case (Cons s ss)
  then have d: "\<forall>m \<in> set ms. \<not> (sid s = aid m \<and> aid m \<in> set (map sid ss))"
    by auto
  have "mset (concat (map (\<lambda>s. filter (\<lambda>m. sid s = aid m) ms) (s # ss))) =
      mset (filter (\<lambda>m. sid s = aid m) ms) + mset (filter (\<lambda>m. aid m \<in> set (map sid ss)) ms)"
    using Cons by simp
  also have "\<dots> = mset (filter (\<lambda>m. sid s = aid m \<or> aid m \<in> set (map sid ss)) ms)"
    by (rule mset_filter_disjoint [OF d])
  also have "\<dots> = mset (filter (\<lambda>m. aid m \<in> set (map sid (s # ss))) ms)"
    by (rule arg_cong [where f = mset], rule filter_cong) auto
  finally show ?case .
qed

lemma join_mset:
  assumes "distinct (map sid ss)" and "\<forall>m \<in> set ms. aid m \<in> set (map sid ss)"
  shows "mset (map snd [(s, m). s \<leftarrow> ss, m \<leftarrow> ms, sid s = aid m]) = mset ms"
proof -
  have "map snd [(s, m). s \<leftarrow> ss, m \<leftarrow> ms, sid s = aid m] =
      concat (map (\<lambda>s. filter (\<lambda>m. sid s = aid m) ms) ss)"
    by (simp add: map_concat comp_def join_inner)
  then have "mset (map snd [(s, m). s \<leftarrow> ss, m \<leftarrow> ms, sid s = aid m]) =
      mset (filter (\<lambda>m. aid m \<in> set (map sid ss)) ms)"
    by (simp only: join_outer [OF assms(1)])
  also have "filter (\<lambda>m. aid m \<in> set (map sid ss)) ms = ms"
    using assms(2) by (simp only: filter_id_conv) 
  finally show ?thesis .
qed

subsection \<open>The rank of a value in its partition\<close>

lemma takeWhile_desc:
  assumes "sorted_wrt (\<lambda>a b. b \<le> a) ys" and "x \<in> set ys"
  shows "takeWhile (\<lambda>y. y \<noteq> x) ys = filter (\<lambda>y. x < y) (ys :: 'a :: linorder list)"
  using assms
proof (induction ys)
  case Nil
  then show ?case by simp
next
  case (Cons y ys)
  show ?case
  proof (cases "y = x")
    case True
    with Cons.prems have "\<forall>z \<in> set ys. \<not> x < z" by auto
    then have "filter (\<lambda>y. x < y) ys = []" by (simp add: filter_empty_conv)
    with True show ?thesis by simp
  next
    case False
    with Cons.prems have "x \<in> set ys" "x < y" by auto
    with Cons False show ?thesis by simp
  qed
qed

lemma length_filter_mset:
  "mset xs = mset ys \<Longrightarrow> length (filter P xs) = length (filter P ys)"
  by (metis mset_filter size_mset)

lemma rank_desc_eq:
  assumes "x \<in> set part"
  shows "rank_desc part x = Suc (length (filter (\<lambda>y. x < y) part))"
proof -
  have s: "sorted_wrt (\<lambda>a b. b \<le> a) (rev (sort part))"
    by (simp add: sorted_wrt_rev)
  have "x \<in> set (rev (sort part))" using assms by simp
  from takeWhile_desc [OF s this]
  have "rank_desc part x = Suc (length (filter (\<lambda>y. x < y) (rev (sort part))))"
    by (simp add: rank_desc_def)
  moreover have "mset (rev (sort part)) = mset part" by simp
  ultimately show ?thesis by (simp only: length_filter_mset [of "rev (sort part)" part])
qed

lemma length_filter_ge:
  "length (filter (\<lambda>y. a \<le> y) xs) =
     length (filter (\<lambda>y. a < y) xs) + length (filter (\<lambda>y. y = a) (xs :: 'a :: linorder list))"
  by (induction xs) auto

lemma desc_step:
  assumes s: "sorted_wrt (\<lambda>a b. b \<le> a) (xs :: 'a :: linorder list)" and i: "Suc i < length xs"
    and ne: "xs ! i \<noteq> xs ! Suc i"
  shows "length (filter (\<lambda>y. xs ! Suc i < y) xs) =
         length (filter (\<lambda>y. xs ! i < y) xs) + length (filter (\<lambda>y. y = xs ! i) xs)"
proof -
  from s i have le: "xs ! Suc i \<le> xs ! i"
    by (simp add: sorted_wrt_iff_nth_less)
  with ne have lt: "xs ! Suc i < xs ! i" by simp
  have "(xs ! Suc i < y) = (xs ! i \<le> y)" if "y \<in> set xs" for y
  proof -
    from that obtain j where j: "j < length xs" "y = xs ! j" by (auto simp: in_set_conv_nth)
    show ?thesis
    proof (cases "j \<le> i")
      case True
      then have "xs ! i \<le> xs ! j"
        using s i j(1) by (cases "j = i") (auto simp: sorted_wrt_iff_nth_less)
      with lt j show ?thesis by (meson leD order_less_le_trans order_le_less_trans)
    next
      case False
      then have "xs ! j \<le> xs ! Suc i"
        using s i j(1) by (cases "j = Suc i") (auto simp: sorted_wrt_iff_nth_less)
      with lt j show ?thesis by (meson leD order_less_le_trans order_le_less_trans)
    qed
  qed
  then have "filter (\<lambda>y. xs ! Suc i < y) xs = filter (\<lambda>y. xs ! i \<le> y) xs"
    by (intro filter_cong) auto
  then show ?thesis by (simp only: length_filter_ge)
qed

subsection \<open>The mass ranking\<close>

lemma mass_comparison_eq:
  "mass_comparison st =
     sort_key (\<lambda>r. (mc_parent_isotope r, float4_desc (mc_estimated_mass_g r)))
       (map (mass_comparison_select (mass_comparison_join st)) (mass_comparison_join st))"
  by (simp add: mass_comparison_def Let_def)

lemma mass_comparison_filter:
  "filter (\<lambda>r. mc_parent_isotope r = X) (mass_comparison st) =
     sort_key (\<lambda>r. (mc_parent_isotope r, float4_desc (mc_estimated_mass_g r)))
       (map (mass_comparison_select (mass_comparison_join st))
          (filter (\<lambda>(s, m). m_parent_isotope m = X) (mass_comparison_join st)))"
proof -
  have "(\<lambda>r. mc_parent_isotope r = X) \<circ> mass_comparison_select J = (\<lambda>(s, m). m_parent_isotope m = X)" for J
    by (auto simp: mass_comparison_select_def fun_eq_iff)
  then show ?thesis
    by (simp add: mass_comparison_eq filter_sort filter_map)
qed

lemma mass_comparison_rows:
  assumes "out = filter (\<lambda>r. mc_parent_isotope r = X) (mass_comparison st)"
  shows "mset (map mc_estimated_mass_g out) = mset (mass_partition (mass_comparison_join st) X)"
    and "\<forall>r \<in> set out. mc_parent_isotope r = X \<and>
           mass_rank r = rank_desc (mass_partition (mass_comparison_join st) X) (mc_estimated_mass_g r)"
proof -
  let ?J = "mass_comparison_join st"
  let ?JX = "filter (\<lambda>(s, m). m_parent_isotope m = X) ?J"
  have out: "out = sort_key (\<lambda>r. (mc_parent_isotope r, float4_desc (mc_estimated_mass_g r)))
      (map (mass_comparison_select ?J) ?JX)"
    unfolding assms by (rule mass_comparison_filter)
  have "map mc_estimated_mass_g (map (mass_comparison_select ?J) ?JX) = mass_partition ?J X"
    by (auto simp: mass_partition_def mass_comparison_select_def)
  then have "mset (map mc_estimated_mass_g (map (mass_comparison_select ?J) ?JX)) = mset (mass_partition ?J X)"
    by (rule arg_cong)
  then show "mset (map mc_estimated_mass_g out) = mset (mass_partition ?J X)"
    unfolding out by (simp only: mset_map mset_sort)
  have "set out = mass_comparison_select ?J ` set ?JX"
    unfolding out by (simp only: set_sort set_map)
  then show "\<forall>r \<in> set out. mc_parent_isotope r = X \<and>
           mass_rank r = rank_desc (mass_partition ?J X) (mc_estimated_mass_g r)"
    by (auto simp: mass_comparison_select_def)
qed

lemma mass_comparison_sorted:
  assumes "out = filter (\<lambda>r. mc_parent_isotope r = X) (mass_comparison st)"
  shows "sorted_wrt (\<lambda>a b. mc_estimated_mass_g b \<le> mc_estimated_mass_g a) out"
proof -
  have "sorted (map (\<lambda>r. (mc_parent_isotope r, float4_desc (mc_estimated_mass_g r))) (mass_comparison st))"
    unfolding mass_comparison_eq by (rule sorted_sort_key)
  then have "sorted (map (\<lambda>r. (mc_parent_isotope r, float4_desc (mc_estimated_mass_g r))) out)"
    unfolding assms by (rule sorted_filter)
  then have "sorted_wrt (\<lambda>a b. (mc_parent_isotope a, float4_desc (mc_estimated_mass_g a)) \<le> (mc_parent_isotope b, float4_desc (mc_estimated_mass_g b))) out"
    by (simp only: sorted_map)
  moreover have "\<forall>r \<in> set out. mc_parent_isotope r = X"
    unfolding assms by simp
  ultimately show ?thesis
    by (auto simp: lex_le float4_desc_le elim!: sorted_wrt_mono_rel [rotated])
qed

lemma mass_rank_count:
  assumes out: "out = filter (\<lambda>r. mc_parent_isotope r = X) (mass_comparison st)"
    and r: "r \<in> set out"
  shows "mass_rank r =
     Suc (length (filter (\<lambda>y. mc_estimated_mass_g r < y) (map mc_estimated_mass_g out)))"
proof -
  let ?part = "mass_partition (mass_comparison_join st) X"
  note rows = mass_comparison_rows [OF out]
  from r have "mc_estimated_mass_g r \<in> set (map mc_estimated_mass_g out)" by simp
  then have "mc_estimated_mass_g r \<in> set ?part"
    using mset_eq_setD [OF rows(1)] by simp
  then have "rank_desc ?part (mc_estimated_mass_g r) =
      Suc (length (filter (\<lambda>y. mc_estimated_mass_g r < y) ?part))"
    by (rule rank_desc_eq)
  also have "length (filter (\<lambda>y. mc_estimated_mass_g r < y) ?part) =
      length (filter (\<lambda>y. mc_estimated_mass_g r < y) (map mc_estimated_mass_g out))"
    by (rule length_filter_mset [OF rows(1) [symmetric]])
  finally show ?thesis using rows(2) r by simp
qed

lemma mass_comparison_complete:
  assumes "out = filter (\<lambda>r. mc_parent_isotope r = X) (mass_comparison (run_all stmts empty_store))"
  shows "mset (map mc_estimated_mass_g out) =
     mset (map estimated_mass_g
            (filter (\<lambda>m. m_parent_isotope m = X) (mass_estimates (run_all stmts empty_store))))"
proof -
  let ?st = "run_all stmts empty_store"
  have ok: "store_ok ?st" by (rule store_ok_reachable)
  then have d: "distinct (map s_id (analysis_sessions ?st))"
    by (simp add: store_ok_def unique_ok_def session_ids_def)
  from ok have f: "\<forall>m \<in> set (mass_estimates ?st). m_analysis_id m \<in> set (map s_id (analysis_sessions ?st))"
    by (simp add: store_ok_def fk_ok_def session_ids_def list_all_iff)
  have j: "mset (map snd (mass_comparison_join ?st)) = mset (mass_estimates ?st)"
    unfolding mass_comparison_join_def by (rule join_mset [OF d f])
  have "mass_partition (mass_comparison_join ?st) X =
      map estimated_mass_g (filter (\<lambda>m. m_parent_isotope m = X) (map snd (mass_comparison_join ?st)))"
    by (simp add: mass_partition_def filter_map comp_def case_prod_unfold)
  then have "mset (mass_partition (mass_comparison_join ?st) X) =
      image_mset estimated_mass_g (filter_mset (\<lambda>m. m_parent_isotope m = X) (mset (map snd (mass_comparison_join ?st))))"
    by (simp only: mset_map mset_filter)
  also have "\<dots> = mset (map estimated_mass_g (filter (\<lambda>m. m_parent_isotope m = X) (mass_estimates ?st)))"
    unfolding j by (simp only: mset_map mset_filter)
  finally show ?thesis
    using mass_comparison_rows(1) [OF assms] by simp
qed

text \<open>
  Claim C4. The rows of \<open>mass_comparison\<close> for one isotope come in descending order of
  estimated mass; the rank of a row is one more than the number of rows of the isotope with a
  strictly larger mass, so rows of equal mass have equal rank, and where the mass changes
  from one row to the next the rank grows by the number of rows that share the earlier mass;
  in a reachable store these rows are the mass estimates of the isotope, each once.
\<close>

theorem mass_ranking:
  assumes out: "out = filter (\<lambda>r. mc_parent_isotope r = X) (mass_comparison st)"
  shows
   "sorted_wrt (\<lambda>a b. mc_estimated_mass_g b \<le> mc_estimated_mass_g a) out \<and>
    (\<forall>r \<in> set out.
       mass_rank r = Suc (length (filter (\<lambda>r'. mc_estimated_mass_g r < mc_estimated_mass_g r') out))) \<and>
    (\<forall>r \<in> set out. \<forall>r' \<in> set out.
       mc_estimated_mass_g r = mc_estimated_mass_g r' \<longrightarrow> mass_rank r = mass_rank r') \<and>
    (\<forall>i. Suc i < length out \<and> mc_estimated_mass_g (out ! i) \<noteq> mc_estimated_mass_g (out ! Suc i) \<longrightarrow>
       mass_rank (out ! Suc i) =
         mass_rank (out ! i) +
         length (filter (\<lambda>r'. mc_estimated_mass_g r' = mc_estimated_mass_g (out ! i)) out)) \<and>
    (st = run_all stmts empty_store \<longrightarrow>
       mset (map mc_estimated_mass_g out) =
       mset (map estimated_mass_g (filter (\<lambda>m. m_parent_isotope m = X) (mass_estimates st))))"
proof -
  have srt: "sorted_wrt (\<lambda>a b. mc_estimated_mass_g b \<le> mc_estimated_mass_g a) out"
    by (rule mass_comparison_sorted [OF out])
  have rk: "mass_rank r = Suc (length (filter (\<lambda>r'. mc_estimated_mass_g r < mc_estimated_mass_g r') out))"
    if "r \<in> set out" for r
    using mass_rank_count [OF out that] by (simp add: filter_map comp_def)
  have ties: "mass_rank r = mass_rank r'"
    if "r \<in> set out" "r' \<in> set out" "mc_estimated_mass_g r = mc_estimated_mass_g r'" for r r'
    using rk [OF that(1)] rk [OF that(2)] that(3) by simp
  have step: "mass_rank (out ! Suc i) =
         mass_rank (out ! i) +
         length (filter (\<lambda>r'. mc_estimated_mass_g r' = mc_estimated_mass_g (out ! i)) out)"
    if i: "Suc i < length out" and ne: "mc_estimated_mass_g (out ! i) \<noteq> mc_estimated_mass_g (out ! Suc i)" for i
  proof -
    let ?xs = "map mc_estimated_mass_g out"
    have s: "sorted_wrt (\<lambda>a b. b \<le> a) ?xs"
      using srt by (simp add: sorted_wrt_map)
    have i': "Suc i < length ?xs" using i by simp
    have ne': "?xs ! i \<noteq> ?xs ! Suc i" using i ne by simp
    from desc_step [OF s i' ne']
    have "length (filter (\<lambda>y. mc_estimated_mass_g (out ! Suc i) < y) ?xs) =
          length (filter (\<lambda>y. mc_estimated_mass_g (out ! i) < y) ?xs) +
          length (filter (\<lambda>y. y = mc_estimated_mass_g (out ! i)) ?xs)"
      using i by simp
    moreover have "out ! i \<in> set out" "out ! Suc i \<in> set out" using i by simp_all
    ultimately show ?thesis
      using mass_rank_count [OF out, of "out ! i"] mass_rank_count [OF out, of "out ! Suc i"]
      by (simp add: filter_map comp_def)
  qed
  have all: "mset (map mc_estimated_mass_g out) =
       mset (map estimated_mass_g (filter (\<lambda>m. m_parent_isotope m = X) (mass_estimates st)))"
    if "st = run_all stmts empty_store"
    using mass_comparison_complete [of out X stmts] out that by simp
  from srt rk ties step all show ?thesis by blast
qed

lemma ex_rank_view:
  "map (\<lambda>r. (mc_parent_isotope r, mc_estimated_mass_g r, mass_rank r)) (mass_comparison ex_rank_store) =
     [(''Co-60'', Finite 8, 1), (''Cs-137'', Finite 5, 1), (''Cs-137'', Finite 5, 1), (''Cs-137'', Finite 3, 3)]"
  by (simp add: ex_rank_store_def ex_defs2 exec_defs float4_divs mass_comparison_def mass_comparison_select_def
      mass_comparison_join_def mass_partition_def rank_desc_def float4_desc_def less_eq_prod_def less_prod_def
      less_list_code less_eq_list_code)

theorem mass_ranking_witness:
  "map (\<lambda>r. (mc_parent_isotope r, mc_estimated_mass_g r, mass_rank r)) (mass_comparison ex_rank_store) =
     [(''Co-60'', Finite 8, 1), (''Cs-137'', Finite 5, 1), (''Cs-137'', Finite 5, 1), (''Cs-137'', Finite 3, 3)] \<and>
   sorted_wrt (\<lambda>a b. mc_estimated_mass_g b \<le> mc_estimated_mass_g a)
     (filter (\<lambda>r. mc_parent_isotope r = ''Cs-137'') (mass_comparison ex_rank_store))"
proof -
  have "sorted_wrt (\<lambda>a b. mc_estimated_mass_g b \<le> mc_estimated_mass_g a)
     (filter (\<lambda>r. mc_parent_isotope r = ''Cs-137'') (mass_comparison ex_rank_store))"
    by (rule mass_ranking [OF refl, THEN conjunct1])
  with ex_rank_view show ?thesis by (rule conjI)
qed

subsection \<open>The plot catalog\<close>



lemma nulls_last_le_iff:
  "nulls_last d a \<le> nulls_last d b \<longleftrightarrow> nulls_last_le a b"
  by (cases a; cases b) (simp_all add: nulls_last_def nulls_last_le_def less_eq_prod_def)

lemma nulls_last_eq_iff:
  "nulls_last d a < nulls_last d b \<or> nulls_last d a = nulls_last d b \<longleftrightarrow> nulls_last_le a b"
  using nulls_last_le_iff [of d a b] by (simp add: le_less)








end
